theory Spec2Isabelle
  imports Complex_Main "HOL-Library.Monad_Syntax" "HOL-Library.Word"
begin

section \<open>Go slices, panics and loops\<close>

text \<open>
  The plookup package works on slices of field elements (\<open>[]fr.Element\<close>). A slice is a
  list; the field \<open>fr.Element\<close> is any type of class \<open>field\<close> (in HOL \<open>inverse 0 = 0\<close>,
  which is also what \<open>fr.Element.Inverse\<close> returns on zero), with a linear order where
  the code sorts (\<open>Table.Less\<close> is \<open>Cmp == -1\<close>, a total order on the elements that has
  nothing to do with the arithmetic).

  A Go run-time panic (index out of range, \<open>make\<close> with a negative length) is the value
  \<open>None\<close>; every indexed read and write of the source goes through \<open>get_at\<close> and
  \<open>set_at\<close>, which check the bound as the Go run time does.
\<close>

definition get_at :: "'a list \<Rightarrow> nat \<Rightarrow> 'a option" where
  "get_at xs i = (if i < length xs then Some (xs ! i) else None)"

definition set_at :: "'a list \<Rightarrow> nat \<Rightarrow> 'a \<Rightarrow> 'a list option" where
  "set_at xs i v = (if i < length xs then Some (xs[i := v]) else None)"

text \<open>\<open>make([]fr.Element, n)\<close>: \<open>n\<close> zero elements; the length is an \<open>int\<close> in Go, and a
  negative one panics.\<close>

definition make_slice :: "int \<Rightarrow> ('a::zero) list option" where
  "make_slice n = (if n < 0 then None else Some (replicate (nat n) 0))"

text \<open>\<open>copy(dst, src)\<close> overwrites the first \<open>min(len(dst), len(src))\<close> elements of
  \<open>dst\<close>.\<close>

definition copy :: "'a list \<Rightarrow> 'a list \<Rightarrow> 'a list" where
  "copy dst src = (let n = min (length dst) (length src) in take n src @ drop n dst)"

text \<open>A \<open>for i := a; i < b; i++\<close> loop runs its body over \<open>[a..<b]\<close>, threading the
  variables it assigns; a panic in the body ends the run.\<close>

fun loop :: "nat list \<Rightarrow> (nat \<Rightarrow> 's \<Rightarrow> 's option) \<Rightarrow> 's \<Rightarrow> 's option" where
  "loop [] body s = Some s"
| "loop (i # is) body s = (case body i s of None \<Rightarrow> None | Some s' \<Rightarrow> loop is body s')"

text \<open>An index computed as a Go \<open>int\<close> may be negative; reading there panics.\<close>

definition get_at_int :: "'a list \<Rightarrow> int \<Rightarrow> 'a option" where
  "get_at_int xs j = (if 0 \<le> j then get_at xs (nat j) else None)"

definition set_at_int :: "'a list \<Rightarrow> int \<Rightarrow> 'a \<Rightarrow> 'a list option" where
  "set_at_int xs j v = (if 0 \<le> j then set_at xs (nat j) v else None)"

text \<open>The slice expressions \<open>xs[a:]\<close> and \<open>xs[:b]\<close> (the slices of this package have
  their capacity equal to their length); a bound outside the slice panics.\<close>

definition slice_from :: "'a list \<Rightarrow> int \<Rightarrow> 'a list option" where
  "slice_from xs a = (if 0 \<le> a \<and> nat a \<le> length xs then Some (drop (nat a) xs) else None)"

definition slice_to :: "'a list \<Rightarrow> int \<Rightarrow> 'a list option" where
  "slice_to xs b = (if 0 \<le> b \<and> nat b \<le> length xs then Some (take (nat b) xs) else None)"

section \<open>The collaborators of the package\<close>

text \<open>
  The errors a call can return: the two sentinels that vector.go declares (lines 31 to
  34), and the errors of the packages it calls, which are values of those packages and
  so differ from both sentinels.
\<close>

datatype 'x error = ErrNotInTable | ErrPlookupVerification | ErrFiatShamir | ErrKzg 'x

datatype decimation = DIT | DIF

record 'a Domain =
  Cardinality :: nat
  Generator :: 'a
  FrMultiplicativeGen :: 'a

text \<open>\<open>kzg.BatchOpeningProof\<close>: the claimed values and the opening witness (a curve
  point, kept abstract).\<close>

record ('a, 'o) BatchOpeningProof =
  OpeningWitness :: 'o
  ClaimedValues :: "'a list"

text \<open>\<open>ProofLookupVector\<close> (lines 55 to 68); the commitments \<open>h1, h2, t, z, f, h\<close> are
  digests of an abstract type.\<close>

record ('a, 'd, 'o) ProofLookupVector =
  proof_size :: nat
  proof_h1 :: 'd
  proof_h2 :: 'd
  proof_t :: 'd
  proof_z :: 'd
  proof_f :: 'd
  proof_h :: 'd
  BatchedProof :: "('a, 'o) BatchOpeningProof"
  BatchedProofShifted :: "('a, 'o) BatchOpeningProof"

text \<open>
  The packages \<open>fft\<close>, \<open>kzg\<close> and \<open>fiat-shamir\<close> are not part of the sources at hand:
  their functions are parameters of the model, collected in one record. The transforms
  work in place on a buffer; here they return the new contents. \<open>challenge_hash\<close> is
  the hash of the transcript: it maps what was bound before, the label and the values
  bound to the label to a field element. The hash object \<open>hFunc\<close> that the Go code hands
  to \<open>kzg\<close> is part of these functions. \<open>domain_exists n\<close> tells whether the field has a
  multiplicative subgroup of cardinality \<open>n\<close> (a root of unity of that order), so that
  \<open>fft.NewDomain\<close> can build a domain of that cardinality; \<open>domain_generator n\<close> and
  \<open>coset_generator n\<close> are the generator and the coset shift that \<open>fft.NewDomain\<close> stores
  for cardinality \<open>n\<close>.
\<close>

record ('a, 'd, 'o, 'x, 's) collaborators =
  domain_exists :: "nat \<Rightarrow> bool"
  domain_generator :: "nat \<Rightarrow> 'a"
  coset_generator :: "nat \<Rightarrow> 'a"
  FFT :: "'a Domain \<Rightarrow> 'a list \<Rightarrow> decimation \<Rightarrow> bool \<Rightarrow> 'a list"
  FFTInverse :: "'a Domain \<Rightarrow> 'a list \<Rightarrow> decimation \<Rightarrow> bool \<Rightarrow> 'a list"
  BitReverse :: "'a list \<Rightarrow> 'a list"
  Commit :: "'a list \<Rightarrow> 's \<Rightarrow> 'x + 'd"
  BatchOpenSinglePoint ::
    "'a list list \<Rightarrow> 'd list \<Rightarrow> 'a \<Rightarrow> 'a Domain \<Rightarrow> 's \<Rightarrow> 'x + ('a, 'o) BatchOpeningProof"
  BatchVerifySinglePoint :: "'d list \<Rightarrow> ('a, 'o) BatchOpeningProof \<Rightarrow> 's \<Rightarrow> 'x option"
  challenge_hash :: "(string \<times> 'd list \<times> 'a) list \<Rightarrow> string \<Rightarrow> 'd list \<Rightarrow> 'a"

text \<open>
  Modelled from the spec: \<open>fft.NewDomain\<close>. Given a target minimum size it returns the
  descriptor of the smallest power-of-two subgroup: cardinality, generator and coset
  shift. The construction fails when the field has no subgroup of that cardinality
  (sections 4.1 and 7 of the specification). vector.go calls \<open>fft.NewDomain\<close> at lines 384,
  386, 477 and 640 and receives a domain and no error value, so a failure is a run-time
  panic at the call: the value \<open>None\<close>.
\<close>

function nextPowerOfTwo_from :: "nat \<Rightarrow> nat \<Rightarrow> nat" where
  "nextPowerOfTwo_from p m = (if m \<le> p \<or> p = 0 then p else nextPowerOfTwo_from (2 * p) m)"
  by pat_completeness auto
termination
  by (relation "measure (\<lambda>(p, m). m - p)") auto

declare nextPowerOfTwo_from.simps [simp del]

definition nextPowerOfTwo :: "nat \<Rightarrow> nat" where
  "nextPowerOfTwo m = nextPowerOfTwo_from 1 m"

definition NewDomain :: "('a, 'd, 'o, 'x, 's) collaborators \<Rightarrow> nat \<Rightarrow> 'a Domain option" where
  "NewDomain env m =
     (let n = nextPowerOfTwo m
      in if domain_exists env n
         then Some \<lparr>Cardinality = n, Generator = domain_generator env n,
                    FrMultiplicativeGen = coset_generator env n\<rparr>
         else None)"

text \<open>
  Modelled from the spec: \<open>fr.Element.Exp\<close>, exponentiation by a non-negative integer.
  The exponent is a \<open>big.Int\<close> made from an \<open>int64\<close>; a negative one, which the code can
  only reach with a domain of cardinality below 2, is taken as a power of the inverse.
\<close>

definition Exp :: "('a::field) \<Rightarrow> int \<Rightarrow> 'a" where
  "Exp x k = (if 0 \<le> k then x ^ nat k else inverse x ^ nat (- k))"

text \<open>
  Modelled from the spec: the Fiat-Shamir transcript and \<open>deriveRandomness\<close> (a function
  of this package that is not in vector.go). The transcript is made with an ordered list
  of labels; binding values to a label and computing its challenge consumes the label,
  and fails if the label is not the next one in the declared order. The transcript
  keeps, for every challenge computed so far, the label, the values bound to it and the
  challenge.
\<close>

record ('d, 'a) Transcript =
  pending :: "string list"
  bound :: "(string \<times> 'd list \<times> 'a) list"

definition NewTranscript :: "string list \<Rightarrow> ('d, 'a) Transcript" where
  "NewTranscript labels = \<lparr>pending = labels, bound = []\<rparr>"

definition deriveRandomness ::
  "('a, 'd, 'o, 'x, 's) collaborators \<Rightarrow> ('d, 'a) Transcript \<Rightarrow> string \<Rightarrow> 'd list
    \<Rightarrow> ('x error + 'a) \<times> ('d, 'a) Transcript" where
  "deriveRandomness env fs challenge points =
     (case pending fs of
        [] \<Rightarrow> (Inl ErrFiatShamir, fs)
      | l # ls \<Rightarrow>
          if l = challenge
          then (let v = challenge_hash env (bound fs) challenge points
                in (Inr v, \<lparr>pending = ls, bound = bound fs @ [(challenge, points, v)]\<rparr>))
          else (Inl ErrFiatShamir, fs))"

section \<open>Batch inversion\<close>

text \<open>
  Modelled from the spec: \<open>fr.BatchInvert\<close> is not part of the sources at hand. The spec
  describes it as the Montgomery trick (compute the running product, invert once,
  unwind), returning the element-wise inverses, with 0 mapped to itself. The forward pass
  stores at each non-zero position the product of the non-zero elements before it; the
  backward pass multiplies by the running inverse.
\<close>

fun running_products :: "('a::field) \<Rightarrow> 'a list \<Rightarrow> 'a list \<times> 'a" where
  "running_products acc [] = ([], acc)"
| "running_products acc (x # xs) =
     (if x = 0 then (let (r, p) = running_products acc xs in (0 # r, p))
      else (let (r, p) = running_products (acc * x) xs in (acc # r, p)))"

fun unwind :: "('a::field) \<Rightarrow> ('a \<times> 'a) list \<Rightarrow> 'a list" where
  "unwind acc [] = []"
| "unwind acc ((x, r) # rest) =
     (if x = 0 then 0 # unwind acc rest else (r * acc) # unwind (acc * x) rest)"

definition BatchInvert :: "('a::field) list \<Rightarrow> 'a list" where
  "BatchInvert a =
     (let (res, p) = running_products 1 a
      in rev (unwind (inverse p) (rev (zip a res))))"

section \<open>The accumulator \<open>Z\<close>\<close>

text \<open>
  \<open>evaluateAccumulationPolynomial\<close> (vector.go, lines 76 to 119). The first loop fills
  the denominators \<open>d\<close>, which are then inverted in one batch; the second loop builds
  \<open>z\<close>. \<open>c\<close> is \<open>(1 + beta) * gamma\<close> and \<open>e\<close> is \<open>1 + beta\<close>.
\<close>

definition denominator_step ::
  "('a::field) list \<Rightarrow> 'a list \<Rightarrow> 'a \<Rightarrow> 'a \<Rightarrow> nat \<Rightarrow> 'a list \<Rightarrow> 'a list option" where
  "denominator_step lh1 lh2 beta c i d =
     do {
       a1 \<leftarrow> get_at lh1 (i + 1);
       a0 \<leftarrow> get_at lh1 i;
       let di = beta * a1 + a0 + c;
       b1 \<leftarrow> get_at lh2 (i + 1);
       b0 \<leftarrow> get_at lh2 i;
       let u = beta * b1 + b0 + c;
       set_at d i (di * u)
     }"

definition accumulation_step ::
  "('a::field) list \<Rightarrow> 'a list \<Rightarrow> 'a list \<Rightarrow> 'a \<Rightarrow> 'a \<Rightarrow> 'a \<Rightarrow> 'a \<Rightarrow> nat \<Rightarrow> 'a list
    \<Rightarrow> 'a list option" where
  "accumulation_step lf lt d beta gamma c e i z =
     do {
       fi \<leftarrow> get_at lf i;
       let a = gamma + fi;
       t1 \<leftarrow> get_at lt (i + 1);
       t0 \<leftarrow> get_at lt i;
       let b = beta * t1 + t0 + c;
       let a = a * b * e;
       zi \<leftarrow> get_at z i;
       di \<leftarrow> get_at d i;
       set_at z (i + 1) (zi * a * di)
     }"

text \<open>Lines 81 to 97: the slice \<open>d\<close> as it is handed to \<open>fr.BatchInvert\<close>.\<close>

definition accumulation_denominators ::
  "('a::field) list \<Rightarrow> 'a list \<Rightarrow> 'a \<Rightarrow> 'a \<Rightarrow> nat \<Rightarrow> 'a list option" where
  "accumulation_denominators lh1 lh2 beta c n =
     do {
       d \<leftarrow> make_slice (int n - 1);
       loop [0..<n - 1] (denominator_step lh1 lh2 beta c) d
     }"

definition evaluateAccumulationPolynomial ::
  "('a::field) list \<Rightarrow> 'a list \<Rightarrow> 'a list \<Rightarrow> 'a list \<Rightarrow> 'a \<Rightarrow> 'a \<Rightarrow> 'a list option" where
  "evaluateAccumulationPolynomial lf lt lh1 lh2 beta gamma =
     do {
       z \<leftarrow> make_slice (int (length lt));
       let n = length lt;
       let c = (1 + beta) * gamma;
       d \<leftarrow> accumulation_denominators lh1 lh2 beta c n;
       let d = BatchInvert d;
       z \<leftarrow> set_at z 0 1;
       let e = 1 + beta;
       loop [0..<n - 1] (accumulation_step lf lt d beta gamma c e) z
     }"

text \<open>
  The recurrence as the specification words it (section 4.3): \<open>Z[0] = 1\<close> and
  \<open>Z[i+1] = Z[i] * numerator / denominator\<close>. It is the yardstick the code is compared
  with; division by zero is 0, as \<open>inverse 0 = 0\<close>.
\<close>

primrec Z_spec :: "('a::field) list \<Rightarrow> 'a list \<Rightarrow> 'a list \<Rightarrow> 'a list \<Rightarrow> 'a \<Rightarrow> 'a \<Rightarrow> nat \<Rightarrow> 'a" where
  "Z_spec lf lt lh1 lh2 beta gamma 0 = 1"
| "Z_spec lf lt lh1 lh2 beta gamma (Suc i) =
     Z_spec lf lt lh1 lh2 beta gamma i
     * ((gamma + lf ! i) * (1 + beta) * (gamma * (1 + beta) + lt ! i + beta * lt ! (i + 1)))
     / ((gamma * (1 + beta) + lh1 ! i + beta * lh1 ! (i + 1))
        * (gamma * (1 + beta) + lh2 ! i + beta * lh2 ! (i + 1)))"

section \<open>Table and vector preparation, sorted merge\<close>

text \<open>Lines 382 to 388 of \<open>ProveLookupVector\<close>: the small domain (\<open>None\<close> when its
  construction panics).\<close>

definition smallDomain ::
  "('a, 'd, 'o, 'x, 's) collaborators \<Rightarrow> 'a list \<Rightarrow> 'a list \<Rightarrow> 'a Domain option" where
  "smallDomain env f t =
     (if length t \<le> length f then NewDomain env (length f + 1) else NewDomain env (length t))"

text \<open>
  Lines 395 to 407: \<open>lf\<close> and \<open>lt\<close> are made with the size of the small domain, \<open>f\<close> and
  \<open>t\<close> are copied into them, the rest is filled with the last element of \<open>f\<close> and of
  \<open>t\<close> (read as \<open>f[len(f)-1]\<close> at every round of the loop), and \<open>lt\<close> is sorted.
  \<open>sort.Sort\<close> with \<open>Table.Less\<close> returns the ascending arrangement of the elements; on a
  linear order that is \<open>sort\<close>.
\<close>

definition resize :: "('a::{zero,linorder}) list \<Rightarrow> 'a list \<Rightarrow> nat \<Rightarrow> ('a list \<times> 'a list) option" where
  "resize f t sizeDomainSmall =
     do {
       lf \<leftarrow> make_slice (int sizeDomainSmall);
       lt \<leftarrow> make_slice (int sizeDomainSmall);
       let lt = copy lt t;
       let lf = copy lf f;
       lf \<leftarrow> loop [length f..<sizeDomainSmall]
               (\<lambda>i lf. do { v \<leftarrow> get_at_int f (int (length f) - 1); set_at lf i v }) lf;
       lt \<leftarrow> loop [length t..<sizeDomainSmall]
               (\<lambda>i lt. do { v \<leftarrow> get_at_int t (int (length t) - 1); set_at lt i v }) lt;
       Some (lf, sort lt)
     }"

text \<open>
  Lines 424 to 427: \<open>lfSortedByt\<close> has \<open>2 * Cardinality - 1\<close> elements; \<open>lt\<close> is copied to
  its front, \<open>lf\<close> to the part from index \<open>Cardinality\<close> on (which has room for one element
  less than \<open>lf\<close> holds), and the whole is sorted.
\<close>

definition sortedMerge :: "('a::{zero,linorder}) list \<Rightarrow> 'a list \<Rightarrow> nat \<Rightarrow> 'a list option" where
  "sortedMerge lt lf cardinality =
     do {
       lfSortedByt \<leftarrow> make_slice (2 * int cardinality - 1);
       let lfSortedByt = copy lfSortedByt lt;
       rest \<leftarrow> slice_from lfSortedByt (int cardinality);
       let lfSortedByt = take cardinality lfSortedByt @ copy rest lf;
       Some (sort lfSortedByt)
     }"

text \<open>Lines 430 to 438: \<open>lh1\<close> and \<open>lh2\<close> (and, with the same contents, \<open>ch1\<close> and
  \<open>ch2\<close> before their transform).\<close>

definition splitMerge :: "('a::zero) list \<Rightarrow> nat \<Rightarrow> ('a list \<times> 'a list) option" where
  "splitMerge lfSortedByt sizeDomainSmall =
     do {
       lh1 \<leftarrow> make_slice (int sizeDomainSmall);
       lh2 \<leftarrow> make_slice (int sizeDomainSmall);
       front \<leftarrow> slice_to lfSortedByt (int sizeDomainSmall);
       let lh1 = copy lh1 front;
       back \<leftarrow> slice_from lfSortedByt (int sizeDomainSmall - 1);
       let lh2 = copy lh2 back;
       Some (lh1, lh2)
     }"

section \<open>The coset evaluator and the quotient\<close>

text \<open>
  The functions of lines 121 to 358 work on the big domain, in bit-reversed order. A name
  of the source that starts with an underscore is written with \<open>x_\<close> in front
  (\<open>_i\<close> is \<open>x_i\<close>, \<open>_lz\<close> is \<open>x_lz\<close>). \<open>bits.TrailingZeros64\<close> and \<open>bits.Reverse64\<close> work
  on 64-bit words; the shift \<open>nn\<close> is \<open>64 - TrailingZeros64(Cardinality)\<close>, and the index
  is the \<open>int\<close> made from the shifted word (on a 64-bit platform, the word read as signed).
  A \<open>[2]fr.Element\<close> is a pair, indexed with \<open>i % 2\<close>.
\<close>

definition TrailingZeros64 :: "64 word \<Rightarrow> nat" where
  "TrailingZeros64 x = length (takeWhile Not (map (bit x) [0..<64]))"

definition shift_nn :: "nat \<Rightarrow> nat" where
  "shift_nn cardinality = 64 - TrailingZeros64 (word_of_nat cardinality)"

definition reversed :: "nat \<Rightarrow> nat \<Rightarrow> int" where
  "reversed nn i = sint (drop_bit nn (word_reverse (word_of_nat i :: 64 word)))"

text \<open>The bit reversal on \<open>k\<close> bits as a word, before it is made an \<open>int\<close>: for a domain
  of cardinality \<open>2 ^ k\<close> the shift is \<open>64 - k\<close>.\<close>

definition bitrev :: "nat \<Rightarrow> nat \<Rightarrow> 64 word" where
  "bitrev k i = drop_bit (64 - k) (word_reverse (word_of_nat i :: 64 word))"

definition pick2 :: "'a \<times> 'a \<Rightarrow> nat \<Rightarrow> 'a" where
  "pick2 p k = (if k = 0 then fst p else snd p)"

text \<open>\<open>evaluateNumBitReversed\<close>, lines 129 to 185.\<close>

definition evaluateNumBitReversed ::
  "('a::field) list \<Rightarrow> 'a list \<Rightarrow> 'a list \<Rightarrow> 'a list \<Rightarrow> 'a list \<Rightarrow> 'a \<Rightarrow> 'a \<Rightarrow> 'a Domain
    \<Rightarrow> 'a list option" where
  "evaluateNumBitReversed x_lz x_lh1 x_lh2 x_lt x_lf beta gamma domainBig =
     do {
       let s = Cardinality domainBig;
       num \<leftarrow> make_slice (int (Cardinality domainBig));
       let onePlusBeta = 1 + beta;
       let GammaTimesOnePlusBeta = onePlusBeta * gamma;
       g \<leftarrow> make_slice (int s);
       g \<leftarrow> set_at g 0 (FrMultiplicativeGen domainBig);
       g \<leftarrow> loop [1..<s]
              (\<lambda>i g. do { p \<leftarrow> get_at g (i - 1); set_at g i (p * Generator domainBig) }) g;
       let expo = int (Cardinality domainBig div 2) - 1;
       let gg = Exp ((Generator domainBig)\<^sup>2) expo;
       let nn = shift_nn (Cardinality domainBig);
       loop [0..<s]
         (\<lambda>i num. do {
            let x_i = reversed nn i;
            let x_is = reversed nn ((i + 2) mod s);
            zi \<leftarrow> get_at_int x_lz x_i;
            let m = onePlusBeta * zi;
            fi \<leftarrow> get_at_int x_lf x_i;
            let u = gamma + fi;
            let m = m * u;
            ts \<leftarrow> get_at_int x_lt x_is;
            ti \<leftarrow> get_at_int x_lt x_i;
            let u = beta * ts + ti + GammaTimesOnePlusBeta;
            let m = m * u;
            h1s \<leftarrow> get_at_int x_lh1 x_is;
            h1i \<leftarrow> get_at_int x_lh1 x_i;
            let n = beta * h1s + h1i + GammaTimesOnePlusBeta;
            h2s \<leftarrow> get_at_int x_lh2 x_is;
            h2i \<leftarrow> get_at_int x_lh2 x_i;
            let u = beta * h2s + h2i + GammaTimesOnePlusBeta;
            zs \<leftarrow> get_at_int x_lz x_is;
            let n = n * u * zs;
            gi \<leftarrow> get_at g i;
            let u = gi - gg;
            set_at_int num x_i ((m - n) * u)
          }) num
     }"

text \<open>\<open>evaluateXnMinusOneDomainBig\<close>, lines 188 to 204.\<close>

definition evaluateXnMinusOneDomainBig :: "('a::field) Domain \<Rightarrow> 'a \<times> 'a" where
  "evaluateXnMinusOneDomainBig domainBig =
     (let sizeDomainSmall = Cardinality domainBig div 2;
          shift = Exp (FrMultiplicativeGen domainBig) (int sizeDomainSmall)
      in (shift - 1, - (shift + 1)))"

text \<open>\<open>evaluateL0DomainBig\<close>, lines 208 to 227, and \<open>evaluationLnDomainBig\<close>, lines 231 to
  254.\<close>

definition evaluateL0DomainBig :: "('a::field) Domain \<Rightarrow> (('a \<times> 'a) \<times> 'a list) option" where
  "evaluateL0DomainBig domainBig =
     do {
       let xnMinusOne = evaluateXnMinusOneDomainBig domainBig;
       denL0 \<leftarrow> make_slice (int (Cardinality domainBig));
       (denL0, acc) \<leftarrow> loop [0..<Cardinality domainBig]
              (\<lambda>i (denL0, acc). do {
                 denL0 \<leftarrow> set_at denL0 i (acc - 1);
                 Some (denL0, acc * Generator domainBig)
               }) (denL0, FrMultiplicativeGen domainBig);
       Some (xnMinusOne, BatchInvert denL0)
     }"

definition evaluationLnDomainBig :: "('a::field) Domain \<Rightarrow> (('a \<times> 'a) \<times> 'a list) option" where
  "evaluationLnDomainBig domainBig =
     do {
       let sizeDomainSmall = Cardinality domainBig div 2;
       let numLn = evaluateXnMinusOneDomainBig domainBig;
       let gg = Exp ((Generator domainBig)\<^sup>2) (int sizeDomainSmall - 1);
       denLn \<leftarrow> make_slice (int (Cardinality domainBig));
       (denLn, acc) \<leftarrow> loop [0..<Cardinality domainBig]
              (\<lambda>i (denLn, acc). do {
                 denLn \<leftarrow> set_at denLn i (acc - gg);
                 Some (denLn, acc * Generator domainBig)
               }) (denLn, FrMultiplicativeGen domainBig);
       Some (numLn, BatchInvert denLn)
     }"

text \<open>\<open>evaluateZStartsByOneBitReversed\<close>, lines 257 to 276; \<open>evaluateZEndsByOneBitReversed\<close>,
  lines 279 to 297; \<open>evaluateOverlapH1h2BitReversed\<close>, lines 300 to 322.\<close>

definition evaluateZStartsByOneBitReversed :: "('a::field) list \<Rightarrow> 'a Domain \<Rightarrow> 'a list option" where
  "evaluateZStartsByOneBitReversed lsZBitReversed domainBig =
     do {
       res \<leftarrow> make_slice (int (Cardinality domainBig));
       let nn = shift_nn (Cardinality domainBig);
       (xnMinusOne, denL0) \<leftarrow> evaluateL0DomainBig domainBig;
       loop [0..<length lsZBitReversed]
         (\<lambda>i res. do {
            let x_i = reversed nn i;
            zi \<leftarrow> get_at_int lsZBitReversed x_i;
            di \<leftarrow> get_at denL0 i;
            set_at_int res x_i ((zi - 1) * pick2 xnMinusOne (i mod 2) * di)
          }) res
     }"

definition evaluateZEndsByOneBitReversed :: "('a::field) list \<Rightarrow> 'a Domain \<Rightarrow> 'a list option" where
  "evaluateZEndsByOneBitReversed lsZBitReversed domainBig =
     do {
       (numLn, denLn) \<leftarrow> evaluationLnDomainBig domainBig;
       res \<leftarrow> make_slice (int (length lsZBitReversed));
       let nn = shift_nn (Cardinality domainBig);
       loop [0..<length lsZBitReversed]
         (\<lambda>i res. do {
            let x_i = reversed nn i;
            zi \<leftarrow> get_at_int lsZBitReversed x_i;
            di \<leftarrow> get_at denLn i;
            set_at_int res x_i ((zi - 1) * pick2 numLn (i mod 2) * di)
          }) res
     }"

definition evaluateOverlapH1h2BitReversed ::
  "('a::field) list \<Rightarrow> 'a list \<Rightarrow> 'a Domain \<Rightarrow> 'a list option" where
  "evaluateOverlapH1h2BitReversed x_lh1 x_lh2 domainBig =
     do {
       (numLn, denLn) \<leftarrow> evaluationLnDomainBig domainBig;
       res \<leftarrow> make_slice (int (length x_lh1));
       let nn = shift_nn (Cardinality domainBig);
       let s = length x_lh1;
       loop [0..<s]
         (\<lambda>i res. do {
            let x_i = reversed nn i;
            let x_is = reversed nn ((i + 2) mod s);
            h1i \<leftarrow> get_at_int x_lh1 x_i;
            h2s \<leftarrow> get_at_int x_lh2 x_is;
            di \<leftarrow> get_at denLn i;
            set_at_int res x_i ((h1i - h2s) * pick2 numLn (i mod 2) * di)
          }) res
     }"

text \<open>
  \<open>computeQuotientCanonical\<close>, lines 329 to 358. \<open>quotientLagrange\<close> is its body up to the
  inverse transform (lines 331 to 353): the numerator folded with \<open>alpha\<close> and divided by
  \<open>x^n - 1\<close>, in Lagrange form.
\<close>

definition quotientLagrange ::
  "('a::field) \<Rightarrow> 'a list \<Rightarrow> 'a list \<Rightarrow> 'a list \<Rightarrow> 'a list \<Rightarrow> 'a Domain \<Rightarrow> 'a list option" where
  "quotientLagrange alpha lh lh0 lhn lh1h2 domainBig =
     do {
       let sizeDomainBig = Cardinality domainBig;
       res \<leftarrow> make_slice (int sizeDomainBig);
       let numLn = evaluateXnMinusOneDomainBig domainBig;
       let numLn = (inverse (fst numLn), inverse (snd numLn));
       let nn = shift_nn (Cardinality domainBig);
       loop [0..<sizeDomainBig]
         (\<lambda>i res. do {
            let x_i = reversed nn i;
            a \<leftarrow> get_at_int lh1h2 x_i;
            b \<leftarrow> get_at_int lhn x_i;
            c \<leftarrow> get_at_int lh0 x_i;
            d \<leftarrow> get_at_int lh x_i;
            set_at_int res x_i ((((a * alpha + b) * alpha + c) * alpha + d) * pick2 numLn (i mod 2))
          }) res
     }"

definition computeQuotientCanonical ::
  "('a::field, 'd, 'o, 'x, 's) collaborators \<Rightarrow> 'a \<Rightarrow> 'a list \<Rightarrow> 'a list \<Rightarrow> 'a list \<Rightarrow> 'a list
    \<Rightarrow> 'a Domain \<Rightarrow> 'a list option" where
  "computeQuotientCanonical env alpha lh lh0 lhn lh1h2 domainBig =
     do {
       res \<leftarrow> quotientLagrange alpha lh lh0 lhn lh1h2 domainBig;
       Some (FFTInverse env domainBig res DIT True)
     }"

section \<open>The prover\<close>

text \<open>
  \<open>ProveLookupVector\<close> (lines 369 to 573) is one long function that returns early on the
  first error. The model keeps its local variables in a record, \<open>var_x\<close> for the variable
  \<open>x\<close>, and returns the record as it stands when the function returns: \<open>var_proof\<close> and
  \<open>var_err\<close> are the two results of the Go function, the other fields are there so that
  intermediate values can be spoken about. A variable that has not been assigned holds
  its zero value. \<open>var_nu\<close> is \<open>nu\<close> as derived; the product \<open>nu * Generator\<close> that line
  549 stores back into \<open>nu\<close> is \<open>var_nu_shifted\<close>.
\<close>

record ('a, 'd, 'o, 'x) locals =
  var_proof :: "('a, 'd, 'o) ProofLookupVector"
  var_err :: "'x error option"
  var_fs :: "('d, 'a) Transcript"
  var_domainSmall :: "'a Domain"
  var_lf :: "'a list"
  var_lt :: "'a list"
  var_cf :: "'a list"
  var_ct :: "'a list"
  var_lfSortedByt :: "'a list"
  var_lh1 :: "'a list"
  var_lh2 :: "'a list"
  var_ch1 :: "'a list"
  var_ch2 :: "'a list"
  var_beta :: 'a
  var_gamma :: 'a
  var_lz :: "'a list"
  var_cz :: "'a list"
  var_alpha :: 'a
  var_ch :: "'a list"
  var_nu :: 'a
  var_nu_shifted :: 'a

text \<open>After a statement the function either goes on or has returned.\<close>

datatype 's flow = Running 's | Returned 's

definition next_step :: "'s flow option \<Rightarrow> ('s \<Rightarrow> 's flow option) \<Rightarrow> 's flow option" where
  "next_step r k =
     (case r of None \<Rightarrow> None | Some (Returned s) \<Rightarrow> Some (Returned s) | Some (Running s) \<Rightarrow> k s)"

text \<open>\<open>proof.x, err = kzg.Commit(p, srs); if err != nil { return proof, err }\<close>\<close>

definition commit_step ::
  "('a, 'd, 'o, 'x, 's) collaborators \<Rightarrow> 's \<Rightarrow> 'a list
    \<Rightarrow> (('a, 'd, 'o) ProofLookupVector \<Rightarrow> 'd \<Rightarrow> ('a, 'd, 'o) ProofLookupVector)
    \<Rightarrow> ('a, 'd, 'o, 'x) locals \<Rightarrow> ('a, 'd, 'o, 'x) locals flow" where
  "commit_step env srs p store l =
     (case Commit env p srs of
        Inl e \<Rightarrow> Returned (l\<lparr>var_err := Some (ErrKzg e)\<rparr>)
      | Inr d \<Rightarrow> Running (l\<lparr>var_proof := store (var_proof l) d\<rparr>))"

text \<open>\<open>x, err := deriveRandomness(&fs, challenge, points...); if err != nil { return proof,
  err }\<close>\<close>

definition derive_step ::
  "('a, 'd, 'o, 'x, 's) collaborators \<Rightarrow> string \<Rightarrow> 'd list
    \<Rightarrow> (('a, 'd, 'o, 'x) locals \<Rightarrow> 'a \<Rightarrow> ('a, 'd, 'o, 'x) locals)
    \<Rightarrow> ('a, 'd, 'o, 'x) locals \<Rightarrow> ('a, 'd, 'o, 'x) locals flow" where
  "derive_step env challenge points store l =
     (case deriveRandomness env (var_fs l) challenge points of
        (Inl e, fs) \<Rightarrow> Returned (l\<lparr>var_fs := fs, var_err := Some e\<rparr>)
      | (Inr v, fs) \<Rightarrow> Running (store (l\<lparr>var_fs := fs\<rparr>) v))"

text \<open>A Lagrange form is brought into the canonical form in which it is committed by
  copying it into a fresh buffer \<open>c\<close>, \<open>domainSmall.FFTInverse(c, fft.DIF)\<close> and
  \<open>fft.BitReverse(c)\<close>.\<close>

definition canonical ::
  "('a::zero, 'd, 'o, 'x, 's) collaborators \<Rightarrow> 'a Domain \<Rightarrow> nat \<Rightarrow> 'a list \<Rightarrow> 'a list option" where
  "canonical env domainSmall n l =
     do {
       c \<leftarrow> make_slice (int n);
       let c = copy c l;
       Some (BitReverse env (FFTInverse env domainSmall c DIF False))
     }"

text \<open>The lift of a canonical form to the big domain: a buffer of twice the size, a copy
  and \<open>domainBig.FFT(x, fft.DIF, true)\<close>.\<close>

definition lift ::
  "('a::zero, 'd, 'o, 'x, 's) collaborators \<Rightarrow> 'a Domain \<Rightarrow> nat \<Rightarrow> 'a list \<Rightarrow> 'a list option" where
  "lift env domainBig s c =
     do {
       x \<leftarrow> make_slice (2 * int s);
       let x = copy x c;
       Some (FFT env domainBig x DIF True)
     }"

definition zero_proof :: "('a, 'd::zero, 'o::zero) ProofLookupVector" where
  "zero_proof =
     \<lparr>proof_size = 0, proof_h1 = 0, proof_h2 = 0, proof_t = 0, proof_z = 0, proof_f = 0,
      proof_h = 0,
      BatchedProof = \<lparr>OpeningWitness = 0, ClaimedValues = []\<rparr>,
      BatchedProofShifted = \<lparr>OpeningWitness = 0, ClaimedValues = []\<rparr>\<rparr>"

text \<open>Lines 372 to 391: the variables at the start, the transcript, the small domain and
  the size of the proof; \<open>None\<close> when the construction of the small domain panics.\<close>

definition start ::
  "('a::zero, 'd::zero, 'o::zero, 'x, 's) collaborators \<Rightarrow> 'a list \<Rightarrow> 'a list
    \<Rightarrow> ('a, 'd, 'o, 'x) locals option" where
  "start env f t =
     do {
       domainSmall \<leftarrow> smallDomain env f t;
       Some \<lparr>var_proof = zero_proof\<lparr>proof_size := Cardinality domainSmall\<rparr>,
          var_err = None,
          var_fs = NewTranscript [''beta'', ''gamma'', ''alpha'', ''nu''],
          var_domainSmall = domainSmall,
          var_lf = [], var_lt = [], var_cf = [], var_ct = [], var_lfSortedByt = [],
          var_lh1 = [], var_lh2 = [], var_ch1 = [], var_ch2 = [],
          var_beta = 0, var_gamma = 0, var_lz = [], var_cz = [], var_alpha = 0, var_ch = [],
          var_nu = 0, var_nu_shifted = 0\<rparr>
     }"

text \<open>Lines 393 to 451: padding, the commitments to \<open>t\<close> and \<open>f\<close>, the sorted merge,
  \<open>h1\<close> and \<open>h2\<close> and their commitments.\<close>

definition prepare ::
  "('a::{field,linorder}, 'd::zero, 'o::zero, 'x, 's) collaborators \<Rightarrow> 's \<Rightarrow> 'a list \<Rightarrow> 'a list
    \<Rightarrow> ('a, 'd, 'o, 'x) locals flow option" where
  "prepare env srs f t =
     do {
       l \<leftarrow> start env f t;
       let domainSmall = var_domainSmall l;
       let sizeDomainSmall = Cardinality domainSmall;
       do {
        (lf, lt) \<leftarrow> resize f t sizeDomainSmall;
        ct \<leftarrow> canonical env domainSmall sizeDomainSmall lt;
        cf \<leftarrow> canonical env domainSmall sizeDomainSmall lf;
        let l = l\<lparr>var_lf := lf, var_lt := lt, var_ct := ct, var_cf := cf\<rparr>;
        next_step (Some (commit_step env srs ct (\<lambda>p d. p\<lparr>proof_t := d\<rparr>) l)) (\<lambda>l.
        next_step (Some (commit_step env srs cf (\<lambda>p d. p\<lparr>proof_f := d\<rparr>) l)) (\<lambda>l.
        do {
          lfSortedByt \<leftarrow> sortedMerge lt lf (Cardinality domainSmall);
          (lh1, lh2) \<leftarrow> splitMerge lfSortedByt sizeDomainSmall;
          hd_part \<leftarrow> slice_to lfSortedByt (int sizeDomainSmall);
          ch1 \<leftarrow> canonical env domainSmall sizeDomainSmall hd_part;
          tl_part \<leftarrow> slice_from lfSortedByt (int sizeDomainSmall - 1);
          ch2 \<leftarrow> canonical env domainSmall sizeDomainSmall tl_part;
          let l = l\<lparr>var_lfSortedByt := lfSortedByt, var_lh1 := lh1, var_lh2 := lh2,
                   var_ch1 := ch1, var_ch2 := ch2\<rparr>;
          next_step (Some (commit_step env srs ch1 (\<lambda>p d. p\<lparr>proof_h1 := d\<rparr>) l)) (\<lambda>l.
          Some (commit_step env srs ch2 (\<lambda>p d. p\<lparr>proof_h2 := d\<rparr>) l))
        }))
       }
     }"

text \<open>Lines 453 to 472: \<open>beta\<close> and \<open>gamma\<close>, the accumulator \<open>Z\<close> and its commitment.\<close>

definition accumulatorRound ::
  "('a::field, 'd, 'o, 'x, 's) collaborators \<Rightarrow> 's \<Rightarrow> ('a, 'd, 'o, 'x) locals
    \<Rightarrow> ('a, 'd, 'o, 'x) locals flow option" where
  "accumulatorRound env srs l =
     next_step (Some (derive_step env ''beta''
         [proof_t (var_proof l), proof_f (var_proof l), proof_h1 (var_proof l), proof_h2 (var_proof l)]
         (\<lambda>l v. l\<lparr>var_beta := v\<rparr>) l)) (\<lambda>l.
     next_step (Some (derive_step env ''gamma'' [] (\<lambda>l v. l\<lparr>var_gamma := v\<rparr>) l)) (\<lambda>l.
     do {
       lz \<leftarrow> evaluateAccumulationPolynomial (var_lf l) (var_lt l) (var_lh1 l) (var_lh2 l)
              (var_beta l) (var_gamma l);
       cz \<leftarrow> canonical env (var_domainSmall l) (length lz) lz;
       let l = l\<lparr>var_lz := lz, var_cz := cz\<rparr>;
       Some (commit_step env srs cz (\<lambda>p d. p\<lparr>proof_z := d\<rparr>) l)
     }))"

text \<open>Lines 474 to 516: the big domain (its construction at line 477 can panic), the lifts
  to it, the four pieces of the numerator, \<open>alpha\<close>, the quotient and its commitment.\<close>

definition quotientRound ::
  "('a::field, 'd, 'o, 'x, 's) collaborators \<Rightarrow> 's \<Rightarrow> ('a, 'd, 'o, 'x) locals
    \<Rightarrow> ('a, 'd, 'o, 'x) locals flow option" where
  "quotientRound env srs l =
     (let s = Cardinality (var_domainSmall l)
      in do {
        domainBig \<leftarrow> NewDomain env (2 * s);
        x_lz \<leftarrow> lift env domainBig s (var_cz l);
        x_lh1 \<leftarrow> lift env domainBig s (var_ch1 l);
        x_lh2 \<leftarrow> lift env domainBig s (var_ch2 l);
        x_lt \<leftarrow> lift env domainBig s (var_ct l);
        x_lf \<leftarrow> lift env domainBig s (var_cf l);
        lh \<leftarrow> evaluateNumBitReversed x_lz x_lh1 x_lh2 x_lt x_lf (var_beta l) (var_gamma l) domainBig;
        lh0 \<leftarrow> evaluateZStartsByOneBitReversed x_lz domainBig;
        lhn \<leftarrow> evaluateZEndsByOneBitReversed x_lz domainBig;
        lh1h2 \<leftarrow> evaluateOverlapH1h2BitReversed x_lh1 x_lh2 domainBig;
        next_step (Some (derive_step env ''alpha'' [proof_z (var_proof l)]
            (\<lambda>l v. l\<lparr>var_alpha := v\<rparr>) l)) (\<lambda>l.
        do {
          ch \<leftarrow> computeQuotientCanonical env (var_alpha l) lh lh0 lhn lh1h2 domainBig;
          let l = l\<lparr>var_ch := ch\<rparr>;
          Some (commit_step env srs ch (\<lambda>p d. p\<lparr>proof_h := d\<rparr>) l)
        })
      })"

text \<open>\<open>proof.x, err = kzg.BatchOpenSinglePoint(polynomials, digests, &nu, hFunc,
  domainSmall, srs); if err != nil { return proof, err }\<close>\<close>

definition open_step ::
  "('a, 'd, 'o, 'x, 's) collaborators \<Rightarrow> 's \<Rightarrow> 'a list list \<Rightarrow> 'd list \<Rightarrow> 'a
    \<Rightarrow> (('a, 'd, 'o) ProofLookupVector \<Rightarrow> ('a, 'o) BatchOpeningProof \<Rightarrow> ('a, 'd, 'o) ProofLookupVector)
    \<Rightarrow> ('a, 'd, 'o, 'x) locals \<Rightarrow> ('a, 'd, 'o, 'x) locals flow" where
  "open_step env srs polynomials digests point store l =
     (case BatchOpenSinglePoint env polynomials digests point (var_domainSmall l) srs of
        Inl e \<Rightarrow> Returned (l\<lparr>var_err := Some (ErrKzg e)\<rparr>)
      | Inr bp \<Rightarrow> Running (l\<lparr>var_proof := store (var_proof l) bp\<rparr>))"

text \<open>Lines 518 to 572: \<open>nu\<close> and the two batched openings.\<close>

definition openingRound ::
  "('a::field, 'd, 'o, 'x, 's) collaborators \<Rightarrow> 's \<Rightarrow> ('a, 'd, 'o, 'x) locals
    \<Rightarrow> ('a, 'd, 'o, 'x) locals flow option" where
  "openingRound env srs l =
     next_step (Some (derive_step env ''nu'' [proof_h (var_proof l)]
         (\<lambda>l v. l\<lparr>var_nu := v\<rparr>) l)) (\<lambda>l.
     next_step (Some (open_step env srs
         [var_ch1 l, var_ch2 l, var_ct l, var_cz l, var_cf l, var_ch l]
         [proof_h1 (var_proof l), proof_h2 (var_proof l), proof_t (var_proof l),
          proof_z (var_proof l), proof_f (var_proof l), proof_h (var_proof l)]
         (var_nu l) (\<lambda>p bp. p\<lparr>BatchedProof := bp\<rparr>) l)) (\<lambda>l.
     (let l = l\<lparr>var_nu_shifted := var_nu l * Generator (var_domainSmall l)\<rparr>
      in next_step (Some (open_step env srs
         [var_ch1 l, var_ch2 l, var_ct l, var_cz l]
         [proof_h1 (var_proof l), proof_h2 (var_proof l), proof_t (var_proof l),
          proof_z (var_proof l)]
         (var_nu_shifted l) (\<lambda>p bp. p\<lparr>BatchedProofShifted := bp\<rparr>) l)) (\<lambda>l.
      Some (Returned l)))))"

text \<open>
  The whole function: its local variables at the return (\<open>None\<close> is a panic), and the
  two values the Go function returns.
\<close>

definition ProveLookupVector_locals ::
  "('a::{field,linorder}, 'd::zero, 'o::zero, 'x, 's) collaborators \<Rightarrow> 's \<Rightarrow> 'a list \<Rightarrow> 'a list
    \<Rightarrow> ('a, 'd, 'o, 'x) locals option" where
  "ProveLookupVector_locals env srs f t =
     (case next_step (next_step (next_step (prepare env srs f t) (accumulatorRound env srs))
                        (quotientRound env srs)) (openingRound env srs) of
        None \<Rightarrow> None
      | Some (Running l) \<Rightarrow> Some l
      | Some (Returned l) \<Rightarrow> Some l)"

definition ProveLookupVector ::
  "('a::{field,linorder}, 'd::zero, 'o::zero, 'x, 's) collaborators \<Rightarrow> 's \<Rightarrow> 'a list \<Rightarrow> 'a list
    \<Rightarrow> (('a, 'd, 'o) ProofLookupVector \<times> 'x error option) option" where
  "ProveLookupVector env srs f t =
     map_option (\<lambda>l. (var_proof l, var_err l)) (ProveLookupVector_locals env srs f t)"

section \<open>The verifier\<close>

text \<open>Lines 582 to 603 of \<open>VerifyLookupVector\<close>: the transcript and the four challenges,
  derived from the commitments of the proof.\<close>

definition deriveChallenges ::
  "('a, 'd, 'o, 'x, 's) collaborators \<Rightarrow> ('a, 'd, 'o) ProofLookupVector
    \<Rightarrow> ('x error + 'a \<times> 'a \<times> 'a \<times> 'a) \<times> ('d, 'a) Transcript" where
  "deriveChallenges env proof =
     (let fs = NewTranscript [''beta'', ''gamma'', ''alpha'', ''nu'']
      in case deriveRandomness env fs ''beta''
                [proof_t proof, proof_f proof, proof_h1 proof, proof_h2 proof] of
           (Inl err, fs) \<Rightarrow> (Inl err, fs)
         | (Inr beta, fs) \<Rightarrow>
      (case deriveRandomness env fs ''gamma'' [] of
           (Inl err, fs) \<Rightarrow> (Inl err, fs)
         | (Inr gamma, fs) \<Rightarrow>
      (case deriveRandomness env fs ''alpha'' [proof_z proof] of
           (Inl err, fs) \<Rightarrow> (Inl err, fs)
         | (Inr alpha, fs) \<Rightarrow>
      (case deriveRandomness env fs ''nu'' [proof_h proof] of
           (Inl err, fs) \<Rightarrow> (Inl err, fs)
         | (Inr nu, fs) \<Rightarrow> (Inr (beta, gamma, alpha, nu), fs)))))"

text \<open>Lines 605 to 636: the two batched openings are checked, the one at \<open>nu\<close> first; the
  error of a check that fails is returned as it is.\<close>

definition checkOpenings ::
  "('a, 'd, 'o, 'x, 's) collaborators \<Rightarrow> 's \<Rightarrow> ('a, 'd, 'o) ProofLookupVector \<Rightarrow> 'x error option" where
  "checkOpenings env srs proof =
     (case BatchVerifySinglePoint env
             [proof_h1 proof, proof_h2 proof, proof_t proof, proof_z proof, proof_f proof,
              proof_h proof]
             (BatchedProof proof) srs of
        Some err \<Rightarrow> Some (ErrKzg err)
      | None \<Rightarrow>
     (case BatchVerifySinglePoint env
             [proof_h1 proof, proof_h2 proof, proof_t proof, proof_z proof]
             (BatchedProofShifted proof) srs of
        Some err \<Rightarrow> Some (ErrKzg err)
      | None \<Rightarrow> None))"

text \<open>
  Lines 638 to 713: the polynomial relation at \<open>nu\<close>. \<open>cv\<close> are the values claimed at
  \<open>nu\<close>, \<open>cvs\<close> those claimed at the shifted point. \<open>fr.Element.Div\<close> multiplies by the
  inverse, which is 0 for 0, as \<open>/\<close> does in HOL. Line 640 builds the domain of size
  \<open>proof.size\<close> to get at its generator; the call panics when there is no such domain,
  whatever the claimed values are. The result is \<open>Some None\<close> when the relation holds,
  the sentinel \<open>ErrPlookupVerification\<close> when it does not, and \<open>None\<close> for a panic.
\<close>

definition checkRelation ::
  "('a::field, 'd, 'o, 'x, 's) collaborators \<Rightarrow> ('a, 'd, 'o) ProofLookupVector
    \<Rightarrow> 'a \<Rightarrow> 'a \<Rightarrow> 'a \<Rightarrow> 'a \<Rightarrow> 'x error option option" where
  "checkRelation env proof beta gamma alpha nu =
     (let cv = ClaimedValues (BatchedProof proof);
          cvs = ClaimedValues (BatchedProofShifted proof)
      in do {
        d \<leftarrow> NewDomain env (proof_size proof);
        let g = Exp (Generator d) (int (Cardinality d) - 1);
        let v = 1 + beta;
        let w = v * gamma;
        cv3 \<leftarrow> get_at cv 3;
        let lhs = (nu - g) * cv3 * v;
        cv4 \<leftarrow> get_at cv 4;
        let a = gamma + cv4;
        let lhs = lhs * a;
        cvs2 \<leftarrow> get_at cvs 2;
        cv2 \<leftarrow> get_at cv 2;
        let a = beta * cvs2 + cv2 + w;
        let lhs = lhs * a;
        cvs3 \<leftarrow> get_at cvs 3;
        let rhs = (nu - g) * cvs3;
        cvs0 \<leftarrow> get_at cvs 0;
        cv0 \<leftarrow> get_at cv 0;
        let a = beta * cvs0 + cv0 + w;
        let rhs = rhs * a;
        cvs1 \<leftarrow> get_at cvs 1;
        cv1 \<leftarrow> get_at cv 1;
        let a = beta * cvs1 + cv1 + w;
        let rhs = rhs * a;
        let lhs = lhs - rhs;
        let l0 = Exp nu (int (Cardinality d)) - 1;
        let ln = l0;
        let d1 = nu - 1;
        let d2 = nu - g;
        let l0 = l0 / d1;
        let ln = ln / d2;
        let l0z = (cv3 - 1) * l0;
        let lnz = ln * (cv3 - 1);
        let lnh1h2 = (cv0 - cvs1) * ln;
        let lnh1h2 = ((lnh1h2 * alpha + lnz) * alpha + l0z) * alpha + lhs;
        let nun = Exp nu (int (Cardinality d));
        let x_g = nun - 1;
        cv5 \<leftarrow> get_at cv 5;
        let x_g = cv5 * x_g;
        if lnh1h2 \<noteq> x_g then Some (Some ErrPlookupVerification) else Some None
      })"

text \<open>
  \<open>VerifyLookupVector\<close> (lines 576 to 714): the error it returns (\<open>None\<close> is \<open>nil\<close>, the
  proof is accepted), together with the transcript as it stands at the return; the outer
  \<open>None\<close> is a panic.
\<close>

definition VerifyLookupVector_fs ::
  "('a::field, 'd, 'o, 'x, 's) collaborators \<Rightarrow> 's \<Rightarrow> ('a, 'd, 'o) ProofLookupVector
    \<Rightarrow> ('x error option \<times> ('d, 'a) Transcript) option" where
  "VerifyLookupVector_fs env srs proof =
     (case deriveChallenges env proof of
        (Inl err, fs) \<Rightarrow> Some (Some err, fs)
      | (Inr (beta, gamma, alpha, nu), fs) \<Rightarrow>
     (case checkOpenings env srs proof of
        Some err \<Rightarrow> Some (Some err, fs)
      | None \<Rightarrow>
     (case checkRelation env proof beta gamma alpha nu of
        None \<Rightarrow> None
      | Some r \<Rightarrow> Some (r, fs))))"

definition VerifyLookupVector ::
  "('a::field, 'd, 'o, 'x, 's) collaborators \<Rightarrow> 's \<Rightarrow> ('a, 'd, 'o) ProofLookupVector
    \<Rightarrow> 'x error option option" where
  "VerifyLookupVector env srs proof = map_option fst (VerifyLookupVector_fs env srs proof)"

section \<open>The relation of the specification\<close>

text \<open>
  The fold and the relation as the specification words them (sections 4.4 and 4.7), to
  compare the code with. \<open>cv\<close> are the six values claimed at \<open>nu\<close>, for
  \<open>h1, h2, t, z, f, h\<close> in this order, \<open>cvs\<close> the four claimed at \<open>nu * g\<close>, for
  \<open>h1, h2, t, z\<close>; \<open>N\<close> is the cardinality of the small domain and \<open>g\<close> its last point.
\<close>

definition horner_fold :: "('a::field) \<Rightarrow> 'a \<Rightarrow> 'a \<Rightarrow> 'a \<Rightarrow> 'a \<Rightarrow> 'a" where
  "horner_fold alpha h1h2 hn h0 h = ((h1h2 * alpha + hn) * alpha + h0) * alpha + h"

definition relationAt ::
  "nat \<Rightarrow> ('a::field) \<Rightarrow> 'a \<Rightarrow> 'a \<Rightarrow> 'a \<Rightarrow> 'a \<Rightarrow> 'a list \<Rightarrow> 'a list \<Rightarrow> bool" where
  "relationAt N g beta gamma alpha nu cv cvs =
     (let h1 = cv ! 0; h2 = cv ! 1; t = cv ! 2; z = cv ! 3; f = cv ! 4; claimed_h = cv ! 5;
          h1g = cvs ! 0; h2g = cvs ! 1; tg = cvs ! 2; zg = cvs ! 3;
          L0 = (nu ^ N - 1) / (nu - 1);
          Ln = (nu ^ N - 1) / (nu - g);
          h = (nu - g) * z * (1 + beta) * (gamma + f) * (gamma * (1 + beta) + t + beta * tg)
              - (nu - g) * zg * (gamma * (1 + beta) + h1 + beta * h1g)
                  * (gamma * (1 + beta) + h2 + beta * h2g);
          h0 = L0 * (z - 1);
          hn = Ln * (z - 1);
          h1h2 = Ln * (h1 - h2g)
      in horner_fold alpha h1h2 hn h0 h = claimed_h * (nu ^ N - 1))"

text \<open>
  The challenge schedule as the specification words it (section 4.5): \<open>beta\<close> is the
  hash of the label and the commitments to \<open>t, f, h1, h2\<close>, \<open>gamma\<close> of its label alone,
  \<open>alpha\<close> of its label and the commitment to \<open>z\<close>, \<open>nu\<close> of its label and the commitment
  to \<open>h\<close>, each chained on what the transcript bound before.
\<close>

definition challengeSchedule ::
  "('a, 'd, 'o, 'x, 's) collaborators \<Rightarrow> 'd \<Rightarrow> 'd \<Rightarrow> 'd \<Rightarrow> 'd \<Rightarrow> 'd \<Rightarrow> 'd
    \<Rightarrow> (string \<times> 'd list \<times> 'a) list" where
  "challengeSchedule env t f h1 h2 z h =
     (let beta = challenge_hash env [] ''beta'' [t, f, h1, h2];
          s1 = [(''beta'', [t, f, h1, h2], beta)];
          gamma = challenge_hash env s1 ''gamma'' [];
          s2 = s1 @ [(''gamma'', [], gamma)];
          alpha = challenge_hash env s2 ''alpha'' [z];
          s3 = s2 @ [(''alpha'', [z], alpha)];
          nu = challenge_hash env s3 ''nu'' [h]
      in s3 @ [(''nu'', [h], nu)])"


section \<open>A small instance\<close>

text \<open>
  An instance of the collaborators on which the model can be run: the field is \<open>rat\<close>,
  domains can be built up to cardinality 4, the transforms leave the buffer as it is, a commitment is the value of the polynomial
  at the point the reference string holds, an opening lists the values of the polynomials
  at the point, and its check compares the number of claimed values with the number of
  digests.
\<close>

definition example_collaborators :: "(rat, rat, rat, unit, rat) collaborators" where
  "example_collaborators =
     \<lparr>domain_exists = (\<lambda>n. n \<le> 4),
      domain_generator = (\<lambda>n. - 1),
      coset_generator = (\<lambda>n. 2),
      FFT = (\<lambda>d buf dec coset. buf),
      FFTInverse = (\<lambda>d buf dec coset. buf),
      BitReverse = (\<lambda>buf. buf),
      Commit = (\<lambda>p srs. Inr (foldr (\<lambda>c acc. c + srs * acc) p 0)),
      BatchOpenSinglePoint = (\<lambda>ps ds point d srs.
        Inr \<lparr>OpeningWitness = 0,
             ClaimedValues = map (\<lambda>p. foldr (\<lambda>c acc. c + point * acc) p 0) ps\<rparr>),
      BatchVerifySinglePoint = (\<lambda>ds bp srs.
        if length (ClaimedValues bp) = length ds then None else Some ()),
      challenge_hash = (\<lambda>prior label points. 2 + of_nat (length prior) + sum_list points)\<rparr>"

text \<open>A proof for this instance, with all commitments 0, the claimed values of
  \<open>h1, h2, t, z, f\<close> all 1, and the claimed value of \<open>h\<close> left open.\<close>

definition example_proof :: "rat \<Rightarrow> (rat, rat, rat) ProofLookupVector" where
  "example_proof claimed_h =
     \<lparr>proof_size = 2, proof_h1 = 0, proof_h2 = 0, proof_t = 0, proof_z = 0, proof_f = 0,
      proof_h = 0,
      BatchedProof = \<lparr>OpeningWitness = 0, ClaimedValues = [1, 1, 1, 1, 1, claimed_h]\<rparr>,
      BatchedProofShifted = \<lparr>OpeningWitness = 0, ClaimedValues = [1, 1, 1, 1]\<rparr>\<rparr>"

text \<open>
  The run of the prover on the vector \<open>[1]\<close> and the table \<open>[1]\<close> with the collaborators
  of this instance and the reference string 3: the variables of \<open>ProveLookupVector\<close> when
  it returns. Both slices are padded to two elements, the domain has cardinality 2, the
  challenges are \<open>beta = 18\<close>, \<open>gamma = 3\<close>, \<open>alpha = 8\<close> and \<open>nu = 869\<close>.
\<close>

definition example_locals :: "(rat, rat, rat, unit) locals" where
  "example_locals =
     \<lparr>var_proof =
        \<lparr>proof_size = 2, proof_h1 = 4, proof_h2 = 4, proof_t = 4, proof_z = 4, proof_f = 4,
         proof_h = 864,
         BatchedProof =
           \<lparr>OpeningWitness = 0, ClaimedValues = [870, 870, 870, 870, 870, 15767761680]\<rparr>,
         BatchedProofShifted =
           \<lparr>OpeningWitness = 0, ClaimedValues = [- 868, - 868, - 868, - 868]\<rparr>\<rparr>,
      var_err = None,
      var_fs =
        \<lparr>pending = [],
         bound = [(''beta'', [4, 4, 4, 4], 18), (''gamma'', [], 3), (''alpha'', [4], 8),
                  (''nu'', [864], 869)]\<rparr>,
      var_domainSmall = \<lparr>Cardinality = 2, Generator = - 1, FrMultiplicativeGen = 2\<rparr>,
      var_lf = [1, 1], var_lt = [1, 1], var_cf = [1, 1], var_ct = [1, 1],
      var_lfSortedByt = [1, 1, 1], var_lh1 = [1, 1], var_lh2 = [1, 1],
      var_ch1 = [1, 1], var_ch2 = [1, 1], var_beta = 18, var_gamma = 3,
      var_lz = [1, 1], var_cz = [1, 1], var_alpha = 8,
      var_ch = [0, 0, 24, 24], var_nu = 869, var_nu_shifted = - 869\<rparr>"

text \<open>A big domain of cardinality 4 for this instance, with the coset shift 2.\<close>

definition example_domainBig :: "rat Domain" where
  "example_domainBig = \<lparr>Cardinality = 4, Generator = 1, FrMultiplicativeGen = 2\<rparr>"


section \<open>Properties of the helpers\<close>

lemma loop_append:
  "loop (xs @ ys) body s = (case loop xs body s of None \<Rightarrow> None | Some s' \<Rightarrow> loop ys body s')"
  by (induction xs arbitrary: s) (auto split: option.splits)

lemma running_products_snoc:
  "running_products acc (xs @ [x]) =
     (let (r, p) = running_products acc xs
      in if x = 0 then (r @ [0], p) else (r @ [p], p * x))"
  by (induction xs arbitrary: acc) (auto split: prod.splits)

lemma running_products_length:
  "running_products acc xs = (r, p) \<Longrightarrow> length r = length xs"
  by (induction xs arbitrary: acc r p) (auto split: prod.splits if_splits)

lemma running_products_nonzero:
  "running_products acc xs = (r, p) \<Longrightarrow> acc \<noteq> 0 \<Longrightarrow> p \<noteq> 0"
  by (induction xs arbitrary: acc r p) (auto split: prod.splits if_splits)

lemma unwind_running_products:
  "running_products acc xs = (r, p) \<Longrightarrow> acc \<noteq> 0 \<Longrightarrow>
     unwind (inverse p) (rev (zip xs r)) = rev (map inverse xs)"
proof (induction xs arbitrary: r p rule: rev_induct)
  case Nil
  then show ?case by simp
next
  case (snoc x xs)
  obtain r0 p0 where rp: "running_products acc xs = (r0, p0)"
    by (cases "running_products acc xs")
  have len: "length r0 = length xs"
    using rp by (rule running_products_length)
  have p0: "p0 \<noteq> 0"
    using rp snoc.prems(2) by (rule running_products_nonzero)
  have ih: "unwind (inverse p0) (rev (zip xs r0)) = rev (map inverse xs)"
    using snoc.IH [OF rp snoc.prems(2)] .
  show ?case
  proof (cases "x = 0")
    case True
    with snoc.prems(1) rp have "r = r0 @ [0]" "p = p0"
      by (simp_all add: running_products_snoc)
    with True len ih show ?thesis by simp
  next
    case False
    with snoc.prems(1) rp have r: "r = r0 @ [p0]" and p: "p = p0 * x"
      by (simp_all add: running_products_snoc)
    have acc: "inverse (p0 * x) * x = inverse p0"
      using False p0 by (simp add: field_simps)
    have res: "p0 * inverse (p0 * x) = inverse x"
      using False p0 by (simp add: field_simps)
    have "unwind (inverse p) (rev (zip (xs @ [x]) r)) =
          unwind (inverse (p0 * x)) ((x, p0) # rev (zip xs r0))"
      using len r p by simp
    also have "\<dots> = (p0 * inverse (p0 * x)) # unwind (inverse (p0 * x) * x) (rev (zip xs r0))"
      using False by (simp del: inverse_mult_distrib)
    also have "\<dots> = inverse x # rev (map inverse xs)"
      by (simp only: acc res ih)
    finally show ?thesis by simp
  qed
qed

lemma BatchInvert_inverse: "BatchInvert a = map inverse a"
proof -
  obtain r p where rp: "running_products 1 a = (r, p)"
    by (cases "running_products 1 a")
  from unwind_running_products [OF rp] show ?thesis
    by (simp add: BatchInvert_def rp)
qed

lemma update_at_boundary:
  "length xs = k \<Longrightarrow> k < length d \<Longrightarrow> (xs @ drop k d)[k := v] = (xs @ [v]) @ drop (Suc k) d"
  by (simp add: list_update_append Cons_nth_drop_Suc[symmetric])

lemma denominators_loop:
  fixes lh1 lh2 :: "('a::field) list"
  assumes "k \<le> length d" "k < length lh1" "k < length lh2"
  shows "loop [0..<k] (denominator_step lh1 lh2 beta c) d =
    Some (map (\<lambda>i. (beta * lh1 ! (i + 1) + lh1 ! i + c) * (beta * lh2 ! (i + 1) + lh2 ! i + c)) [0..<k]
          @ drop k d)"
  using assms
proof (induction k)
  case 0
  then show ?case by simp
next
  case (Suc k)
  then show ?case
    by (simp add: loop_append denominator_step_def get_at_def set_at_def update_at_boundary)
qed

lemma accumulation_denominators_eq:
  fixes lh1 lh2 :: "('a::field) list"
  assumes "0 < n" "n \<le> length lh1" "n \<le> length lh2"
  shows "accumulation_denominators lh1 lh2 beta c n =
    Some (map (\<lambda>i. (beta * lh1 ! (i + 1) + lh1 ! i + c) * (beta * lh2 ! (i + 1) + lh2 ! i + c)) [0..<n - 1])"
  using assms
  by (simp add: accumulation_denominators_def make_slice_def denominators_loop nat_diff_distrib')

lemma accumulation_loop:
  fixes lf lt lh1 lh2 d :: "('a::field) list"
  assumes "k < length z" "k \<le> length lf" "k < length lt" "k \<le> length d" "z ! 0 = 1"
    and "\<And>i. i < k \<Longrightarrow> d ! i = inverse ((beta * lh1 ! (i + 1) + lh1 ! i + (1 + beta) * gamma)
                               * (beta * lh2 ! (i + 1) + lh2 ! i + (1 + beta) * gamma))"
  shows "loop [0..<k] (accumulation_step lf lt d beta gamma ((1 + beta) * gamma) (1 + beta)) z =
    Some (map (Z_spec lf lt lh1 lh2 beta gamma) [0..<Suc k] @ drop (Suc k) z)"
  using assms
proof (induction k)
  case 0
  then show ?case 
    by (cases z) simp_all
next
  case (Suc k)
  define Z where "Z = Z_spec lf lt lh1 lh2 beta gamma"
  define cur where "cur = map Z [0..<Suc k] @ drop (Suc k) z"
  have prev: "loop [0..<k] (accumulation_step lf lt d beta gamma ((1 + beta) * gamma) (1 + beta)) z
      = Some cur"
    using Suc by (simp add: cur_def Z_def)
  have dk: "d ! k = inverse ((beta * lh1 ! Suc k + lh1 ! k + (1 + beta) * gamma)
                               * (beta * lh2 ! Suc k + lh2 ! k + (1 + beta) * gamma))"
    using Suc.prems(6) [of k] by simp
  have len: "length cur = length z"
    using Suc.prems(1) by (simp add: cur_def)
  have nth_k: "cur ! k = Z k"
    by (simp add: cur_def nth_append del: upt_Suc)
  have upd: "\<And>v. cur[Suc k := v] = (map Z [0..<Suc k] @ [v]) @ drop (Suc (Suc k)) z"
    unfolding cur_def using Suc.prems(1) by (intro update_at_boundary) simp_all
  have val: "Z k * ((gamma + lf ! k) * (beta * lt ! Suc k + lt ! k + (1 + beta) * gamma) * (1 + beta)) * d ! k
     = Z (Suc k)"
    by (simp add: Z_def dk divide_inverse algebra_simps)
  have step: "accumulation_step lf lt d beta gamma ((1 + beta) * gamma) (1 + beta) k cur
    = Some (map Z [0..<Suc (Suc k)] @ drop (Suc (Suc k)) z)"
    using Suc.prems(1-4)
    by (simp add: accumulation_step_def get_at_def set_at_def len nth_k upd val)
  show ?case
    using prev step by (simp add: loop_append Z_def del: Z_spec.simps)
qed


lemma evaluateAccumulationPolynomial_eq_spec:
  fixes lf lt lh1 lh2 :: "('a::field) list"
  assumes "0 < length lt" "length lt \<le> length lh1" "length lt \<le> length lh2"
    "length lt - 1 \<le> length lf"
  shows "evaluateAccumulationPolynomial lf lt lh1 lh2 beta gamma =
    Some (map (Z_spec lf lt lh1 lh2 beta gamma) [0..<length lt])"
proof -
  define n where "n = length lt"
  define c where "c = (1 + beta) * gamma"
  define dens where "dens = map (\<lambda>i. (beta * lh1 ! (i + 1) + lh1 ! i + c)
                                   * (beta * lh2 ! (i + 1) + lh2 ! i + c)) [0..<n - 1]"
  define z0 :: "'a list" where "z0 = (replicate n 0)[0 := 1]"
  have n: "0 < n" "n \<le> length lh1" "n \<le> length lh2" "n - 1 \<le> length lf"
    using assms by (simp_all add: n_def)
  have d: "accumulation_denominators lh1 lh2 beta c n = Some dens"
    using n(1-3) by (simp add: accumulation_denominators_eq dens_def)
  have l: "loop [0..<n - 1] (accumulation_step lf lt (map inverse dens) beta gamma c (1 + beta)) z0
    = Some (map (Z_spec lf lt lh1 lh2 beta gamma) [0..<Suc (n - 1)] @ drop (Suc (n - 1)) z0)"
    unfolding c_def
    using n by (intro accumulation_loop) (simp_all add: z0_def dens_def c_def n_def)
  have "Suc (n - 1) = n"
    using n(1) by simp
  with l have l': "loop [0..<n - 1] (accumulation_step lf lt (map inverse dens) beta gamma c (1 + beta)) z0
    = Some (map (Z_spec lf lt lh1 lh2 beta gamma) [0..<n])"
    by (simp add: z0_def)
  show ?thesis
    using n(1) d l'
    by (simp add: evaluateAccumulationPolynomial_def make_slice_def set_at_def BatchInvert_inverse
        n_def [symmetric] c_def [symmetric] z0_def [symmetric])
qed

section \<open>C5: the accumulator recurrence\<close>

text \<open>
  C5. For slices \<open>lf\<close>, \<open>lt\<close>, \<open>lh1\<close>, \<open>lh2\<close> all of length \<open>s\<close> (with \<open>0 < s\<close>, as
  \<open>Z[0]\<close> has to exist), \<open>evaluateAccumulationPolynomial\<close> returns a slice \<open>Z\<close> of length
  \<open>s\<close> with \<open>Z[0] = 1\<close>, and for every \<open>i\<close> in \<open>[0, s-2]\<close> whose denominator is not zero
  \<open>Z[i+1] = Z[i] * ((gamma + lf[i]) * (1 + beta) * (gamma * (1 + beta) + lt[i] + beta * lt[i+1]))
  / ((gamma * (1 + beta) + lh1[i] + beta * lh1[i+1]) * (gamma * (1 + beta) + lh2[i] + beta * lh2[i+1]))\<close>.
  The slice handed to the batched inversion holds exactly these \<open>s - 1\<close> denominators, and
  the batched inversion returns the same as the element-wise division \<open>1 / x\<close>.
\<close>

theorem accumulator_recurrence:
  fixes lf lt lh1 lh2 :: "('a::field) list"
  assumes "length lf = s" "length lt = s" "length lh1 = s" "length lh2 = s" "0 < s"
  shows "\<exists>Z ds. evaluateAccumulationPolynomial lf lt lh1 lh2 beta gamma = Some Z
      \<and> length Z = s \<and> Z ! 0 = 1
      \<and> (\<forall>i. i + 1 < s \<longrightarrow>
            (gamma * (1 + beta) + lh1 ! i + beta * lh1 ! (i + 1))
              * (gamma * (1 + beta) + lh2 ! i + beta * lh2 ! (i + 1)) \<noteq> 0 \<longrightarrow>
            Z ! (i + 1) = Z ! i
              * ((gamma + lf ! i) * (1 + beta) * (gamma * (1 + beta) + lt ! i + beta * lt ! (i + 1)))
              / ((gamma * (1 + beta) + lh1 ! i + beta * lh1 ! (i + 1))
                 * (gamma * (1 + beta) + lh2 ! i + beta * lh2 ! (i + 1))))
      \<and> accumulation_denominators lh1 lh2 beta ((1 + beta) * gamma) s = Some ds
      \<and> length ds = s - 1
      \<and> (\<forall>i. i + 1 < s \<longrightarrow> ds ! i =
            (gamma * (1 + beta) + lh1 ! i + beta * lh1 ! (i + 1))
              * (gamma * (1 + beta) + lh2 ! i + beta * lh2 ! (i + 1)))
      \<and> BatchInvert ds = map (\<lambda>x. 1 / x) ds"
proof -
  define Z where "Z = map (Z_spec lf lt lh1 lh2 beta gamma) [0..<s]"
  define ds where "ds = map (\<lambda>i. (beta * lh1 ! (i + 1) + lh1 ! i + (1 + beta) * gamma)
                                   * (beta * lh2 ! (i + 1) + lh2 ! i + (1 + beta) * gamma)) [0..<s - 1]"
  have run: "evaluateAccumulationPolynomial lf lt lh1 lh2 beta gamma = Some Z"
    using assms evaluateAccumulationPolynomial_eq_spec [of lt lh1 lh2 lf beta gamma]
    by (simp add: Z_def)
  have len: "length Z = s"
    by (simp add: Z_def)
  have first: "Z ! 0 = 1"
    using assms(5) by (simp add: Z_def)
  have rec: "Z ! (i + 1) = Z ! i
              * ((gamma + lf ! i) * (1 + beta) * (gamma * (1 + beta) + lt ! i + beta * lt ! (i + 1)))
              / ((gamma * (1 + beta) + lh1 ! i + beta * lh1 ! (i + 1))
                 * (gamma * (1 + beta) + lh2 ! i + beta * lh2 ! (i + 1)))"
    if "i + 1 < s" for i
    using that by (simp add: Z_def)
  have dens: "accumulation_denominators lh1 lh2 beta ((1 + beta) * gamma) s = Some ds"
    using assms by (simp add: accumulation_denominators_eq ds_def)
  have dlen: "length ds = s - 1"
    by (simp add: ds_def)
  have dval: "ds ! i = (gamma * (1 + beta) + lh1 ! i + beta * lh1 ! (i + 1))
              * (gamma * (1 + beta) + lh2 ! i + beta * lh2 ! (i + 1))"
    if "i + 1 < s" for i
    using that by (simp add: ds_def algebra_simps)
  have inv: "BatchInvert ds = map (\<lambda>x. 1 / x) ds"
    by (simp add: BatchInvert_inverse inverse_eq_divide)
  show ?thesis
    using run len first rec dens dlen dval inv by blast
qed

theorem accumulator_recurrence_witness:
  "\<exists>Z ds. evaluateAccumulationPolynomial [1, 2, 2, 2] [1, 2, 3, 4] [1, 1, 2, 2] [2, 2, 3, 4] (2::rat) 3
        = Some Z
      \<and> length Z = 4 \<and> Z ! 0 = 1 \<and> Z ! 1 = 14 / 15 \<and> Z ! 2 = Z ! 1 * 255 / 238
      \<and> accumulation_denominators [1, 1, 2, 2] [2, 2, 3, 4] (2::rat) 9 4 = Some ds
      \<and> ds = [180, 238, 300] \<and> BatchInvert ds = [1 / 180, 1 / 238, 1 / 300]"
proof -
  obtain Z ds where
    run: "evaluateAccumulationPolynomial [1, 2, 2, 2] [1, 2, 3, 4] [1, 1, 2, 2] [2, 2, 3, 4] (2::rat) 3
        = Some Z"
    and len: "length Z = 4" and first: "Z ! 0 = 1"
    and rec: "\<And>i. i + 1 < 4 \<Longrightarrow>
            (3 * (1 + 2) + [1, 1, 2, 2] ! i + 2 * [1, 1, 2, 2] ! (i + 1))
              * (3 * (1 + 2) + [2, 2, 3, 4] ! i + 2 * [2, 2, 3, 4] ! (i + 1)) \<noteq> (0::rat) \<Longrightarrow>
            Z ! (i + 1) = Z ! i
              * ((3 + [1, 2, 2, 2] ! i) * (1 + 2) * (3 * (1 + 2) + [1, 2, 3, 4] ! i + 2 * [1, 2, 3, 4] ! (i + 1)))
              / ((3 * (1 + 2) + [1, 1, 2, 2] ! i + 2 * [1, 1, 2, 2] ! (i + 1))
                 * (3 * (1 + 2) + [2, 2, 3, 4] ! i + 2 * [2, 2, 3, 4] ! (i + 1)))"
    and dens: "accumulation_denominators [1, 1, 2, 2] [2, 2, 3, 4] (2::rat) ((1 + 2) * 3) 4 = Some ds"
    and dlen: "length ds = 4 - 1"
    and dval: "\<And>i. i + 1 < 4 \<Longrightarrow> ds ! i =
            (3 * (1 + 2) + [1, 1, 2, 2] ! i + 2 * [1, 1, 2, 2] ! (i + 1))
              * (3 * (1 + 2) + [2, 2, 3, 4] ! i + 2 * [2, 2, 3, 4] ! (i + 1))"
    and inv: "BatchInvert ds = map (\<lambda>x. 1 / x) ds"
    using accumulator_recurrence [of "[1, 2, 2, 2]" 4 "[1, 2, 3, 4]" "[1, 1, 2, 2]" "[2, 2, 3, 4]" 2 3]
    by auto
  have z1: "Z ! 1 = 14 / 15"
    using rec [of 0] first by simp
  have z2: "Z ! 2 = Z ! 1 * 255 / 238"
    using rec [of 1] by (simp add: numeral_2_eq_2)
  have d0: "ds ! 0 = 180" using dval [of 0] by simp
  have d1: "ds ! 1 = 238" using dval [of 1] by simp
  have d2: "ds ! 2 = 300" using dval [of 2] by simp
  have ds: "ds = [180, 238, 300]"
    using dlen d0 d1 d2 by (auto simp: list_eq_iff_nth_eq less_Suc_eq numeral_3_eq_3 numeral_2_eq_2)
  show ?thesis
    using run len first z1 z2 dens ds inv by (intro exI [of _ Z] exI [of _ ds]) simp
qed


lemma nextPowerOfTwo_from_ge:
  "0 < p \<Longrightarrow> m \<le> nextPowerOfTwo_from p m"
proof (induction p m rule: nextPowerOfTwo_from.induct)
  case (1 p m)
  then show ?case
    by (subst nextPowerOfTwo_from.simps) auto
qed

lemma nextPowerOfTwo_ge: "m \<le> nextPowerOfTwo m"
  by (simp add: nextPowerOfTwo_def nextPowerOfTwo_from_ge)

lemma nextPowerOfTwo_from_power:
  "\<exists>k. nextPowerOfTwo_from (2 ^ j) m = 2 ^ k"
proof (induction "2 ^ j :: nat" m arbitrary: j rule: nextPowerOfTwo_from.induct)
  case (1 m)
  show ?case
  proof (cases "m \<le> 2 ^ j")
    case True
    then show ?thesis
      by (subst nextPowerOfTwo_from.simps) auto
  next
    case False
    then have "\<exists>k. nextPowerOfTwo_from (2 ^ Suc j) m = 2 ^ k"
      using "1" [of "Suc j"] by simp
    with False show ?thesis
      by (subst nextPowerOfTwo_from.simps) simp
  qed
qed

lemma nextPowerOfTwo_power: "\<exists>k. nextPowerOfTwo m = 2 ^ k"
  using nextPowerOfTwo_from_power [of 0 m] by (simp add: nextPowerOfTwo_def)


lemma fill_loop:
  "a \<le> b \<Longrightarrow> b \<le> length buf \<Longrightarrow>
     loop [a..<b] (\<lambda>i buf. set_at buf i v) buf = Some (take a buf @ replicate (b - a) v @ drop b buf)"
proof (induction b)
  case 0
  then show ?case by simp
next
  case (Suc b)
  show ?case
  proof (cases "a = Suc b")
    case True
    then show ?thesis by simp
  next
    case False
    with Suc.prems have ab: "a \<le> b" and bl: "b < length buf" by simp_all
    have prev: "loop [a..<b] (\<lambda>i buf. set_at buf i v) buf
        = Some (take a buf @ replicate (b - a) v @ drop b buf)"
      using Suc.IH ab bl by simp
    have upd: "(take a buf @ replicate (b - a) v @ drop b buf)[b := v]
        = take a buf @ replicate (Suc b - a) v @ drop (Suc b) buf"
      using ab bl
      by (simp add: list_update_append Suc_diff_le replicate_append_same
          Cons_nth_drop_Suc [symmetric])
    show ?thesis
      using ab bl prev by (simp add: loop_append set_at_def upd)
  qed
qed

lemma copy_into_zeros:
  "length xs \<le> n \<Longrightarrow> copy (replicate n 0) xs = xs @ replicate (n - length xs) 0"
  by (simp add: copy_def min_def)

lemma resize_eq:
  fixes f t :: "('a::{zero,linorder}) list"
  assumes "f \<noteq> []" "t \<noteq> []" "length f \<le> s" "length t \<le> s"
  shows "resize f t s =
    Some (f @ replicate (s - length f) (last f), sort (t @ replicate (s - length t) (last t)))"
proof -
  have lastf: "get_at_int f (int (length f) - 1) = Some (last f)"
    using assms(1) by (simp add: get_at_int_def get_at_def last_conv_nth nat_diff_distrib')
  have lastt: "get_at_int t (int (length t) - 1) = Some (last t)"
    using assms(2) by (simp add: get_at_int_def get_at_def last_conv_nth nat_diff_distrib')
  have lf: "loop [length f..<s] (\<lambda>i lf. do { v \<leftarrow> get_at_int f (int (length f) - 1); set_at lf i v })
      (f @ replicate (s - length f) 0) = Some (f @ replicate (s - length f) (last f))"
    using assms(3) fill_loop [of "length f" s "f @ replicate (s - length f) 0" "last f"]
    by (simp add: lastf)
  have lt: "loop [length t..<s] (\<lambda>i lt. do { v \<leftarrow> get_at_int t (int (length t) - 1); set_at lt i v })
      (t @ replicate (s - length t) 0) = Some (t @ replicate (s - length t) (last t))"
    using assms(4) fill_loop [of "length t" s "t @ replicate (s - length t) 0" "last t"]
    by (simp add: lastt)
  show ?thesis
    using assms(3,4) by (simp add: resize_def make_slice_def copy_into_zeros lf lt)
qed

lemma sortedMerge_eq:
  fixes lt lf :: "('a::{zero,linorder}) list"
  assumes "length lt = s" "0 < s" "s - 1 \<le> length lf"
  shows "sortedMerge lt lf s = Some (sort (lt @ take (s - 1) lf))"
proof -
  define k where "k = s - 1"
  have s: "s = Suc k" "2 * int s - 1 = int (s + k)"
    using assms(2) by (simp_all add: k_def)
  have m: "make_slice (2 * int s - 1) = Some (replicate (s + k) (0::'a))"
    unfolding s(2) by (simp add: make_slice_def)
  have c: "copy (replicate (s + k) 0) lt = lt @ replicate k 0"
    using assms(1) by (simp add: copy_into_zeros)
  have r: "slice_from (lt @ replicate k 0) (int s) = Some (replicate k 0)"
    using assms(1) by (simp add: slice_from_def)
  have c2: "copy (replicate k 0) lf = take k lf"
    using assms(3) by (simp add: copy_def min_def k_def)
  have t: "take s (lt @ replicate k 0) = lt"
    using assms(1) by simp
  show ?thesis
    by (simp only: sortedMerge_def m Let_def Option.bind.simps c r c2 t k_def [symmetric])
qed

lemma splitMerge_eq:
  fixes m :: "('a::zero) list"
  assumes "length m = 2 * s - 1" "0 < s"
  shows "splitMerge m s = Some (take s m, drop (s - 1) m)"
proof -
  define k where "k = s - 1"
  have le: "s \<le> length m" "k \<le> length m" "length m - k = s" "int s - 1 = int k"
    using assms by (auto simp: k_def)
  have hd_part: "slice_to m (int s) = Some (take s m)"
    using le by (simp add: slice_to_def)
  have tl_part: "slice_from m (int k) = Some (drop k m)"
    using le by (simp add: slice_from_def)
  have full: "length xs = s \<Longrightarrow> copy (replicate s 0) xs = xs" for xs :: "'a list"
    by (simp add: copy_def)
  have c1: "copy (replicate s 0) (take s m) = take s m"
    using le by (intro full) simp
  have c2: "copy (replicate s 0) (drop k m) = drop k m"
    using le(3) by (intro full) simp
  have mk: "make_slice (int s) = Some (replicate s (0::'a))"
    by (simp add: make_slice_def)
  show ?thesis
    by (simp only: splitMerge_def mk le(4) Let_def Option.bind.simps hd_part tl_part c1 c2
        k_def [symmetric])
qed


lemma NewDomain_Some:
  "NewDomain env m = Some d \<longleftrightarrow>
     domain_exists env (nextPowerOfTwo m)
     \<and> d = \<lparr>Cardinality = nextPowerOfTwo m, Generator = domain_generator env (nextPowerOfTwo m),
              FrMultiplicativeGen = coset_generator env (nextPowerOfTwo m)\<rparr>"
  by (auto simp: NewDomain_def Let_def)

lemma NewDomain_None: "NewDomain env m = None \<longleftrightarrow> \<not> domain_exists env (nextPowerOfTwo m)"
  by (simp add: NewDomain_def Let_def)

lemma Cardinality_NewDomain: "NewDomain env m = Some d \<Longrightarrow> Cardinality d = nextPowerOfTwo m"
  by (simp add: NewDomain_Some)

lemma Cardinality_smallDomain:
  assumes "smallDomain env f t = Some d"
  shows "Cardinality d =
     (if length t \<le> length f then nextPowerOfTwo (length f + 1) else nextPowerOfTwo (length t))"
  using assms by (auto simp: smallDomain_def Cardinality_NewDomain split: if_splits)

lemma smallDomain_bounds:
  assumes "smallDomain env f t = Some d"
  shows "length f < Cardinality d" "length t \<le> Cardinality d"
proof -
  have "length f + 1 \<le> nextPowerOfTwo (length f + 1)" "length t \<le> nextPowerOfTwo (length t)"
    by (rule nextPowerOfTwo_ge)+
  then show "length f < Cardinality d" "length t \<le> Cardinality d"
    by (auto simp: Cardinality_smallDomain [OF assms])
qed

section \<open>C4: the sorted merge and its split\<close>

text \<open>
  C4. In \<open>ProveLookupVector\<close>, for a non-empty vector \<open>f\<close> and table \<open>t\<close> and the size
  \<open>s\<close> of the small domain that lines 382 to 388 build: the padded vector \<open>lf\<close> and the sorted padded table \<open>lt\<close> have length
  \<open>s\<close>; the sorted merge is the ascending sort of \<open>lt\<close> followed by \<open>lf\<close> without its last
  element, which is a duplicate of an element that stays; it has length \<open>2s - 1\<close>; \<open>h1\<close> is
  its first \<open>s\<close> elements, \<open>h2\<close> its elements from index \<open>s - 1\<close> on, both of length \<open>s\<close>,
  and \<open>h1[s-1] = h2[0]\<close>.
\<close>

theorem sorted_merge_split:
  fixes f t :: "('a::{field,linorder}) list"
  assumes "f \<noteq> []" "t \<noteq> []" "smallDomain env f t = Some d" "s = Cardinality d"
  shows "\<exists>lf lt m lh1 lh2.
      resize f t s = Some (lf, lt) \<and> length lf = s \<and> length lt = s \<and> sorted lt
    \<and> sortedMerge lt lf s = Some m
    \<and> m = sort (lt @ butlast lf)
    \<and> lf = butlast lf @ [last lf] \<and> last lf \<in> set (butlast lf)
    \<and> length m = 2 * s - 1
    \<and> splitMerge m s = Some (lh1, lh2)
    \<and> lh1 = take s m \<and> lh2 = drop (s - 1) m \<and> length lh1 = s \<and> length lh2 = s
    \<and> lh1 ! (s - 1) = lh2 ! 0"
proof -
  define lf where "lf = f @ replicate (s - length f) (last f)"
  define lt where "lt = sort (t @ replicate (s - length t) (last t))"
  define m where "m = sort (lt @ take (s - 1) lf)"
  have fs: "length f < s" and ts: "length t \<le> s"
    using smallDomain_bounds [OF assms(3)] assms(4) by simp_all
  then have s: "0 < s" by simp
  have r: "resize f t s = Some (lf, lt)"
    using assms(1,2) fs ts by (simp add: resize_eq lf_def lt_def)
  have len: "length lf = s" "length lt = s"
    using fs ts by (simp_all add: lf_def lt_def)
  have srt: "sorted lt"
    by (simp add: lt_def)
  have mrg: "sortedMerge lt lf s = Some m"
    using len s by (simp add: sortedMerge_eq m_def)
  have bl: "butlast lf = take (s - 1) lf"
    using len by (simp add: butlast_conv_take)
  have lfne: "lf \<noteq> []"
    using len s by auto
  have snoc: "lf = butlast lf @ [last lf]"
    using lfne by simp
  have "s - length f = Suc (s - length f - 1)"
    using fs by simp
  then have "lf = (f @ replicate (s - length f - 1) (last f)) @ [last f]"
    unfolding lf_def by (metis append_assoc replicate_append_same replicate_Suc)
  then have "butlast lf = f @ replicate (s - length f - 1) (last f)" "last lf = last f"
    by (simp_all add: butlast_append)
  then have dup: "last lf \<in> set (butlast lf)"
    using assms(1) by simp
  have mlen: "length m = 2 * s - 1"
    using len s by (simp add: m_def)
  have spl: "splitMerge m s = Some (take s m, drop (s - 1) m)"
    using mlen s by (rule splitMerge_eq)
  have l1: "length (take s m) = s" and l2: "length (drop (s - 1) m) = s"
    using mlen s by auto
  have ov: "take s m ! (s - 1) = drop (s - 1) m ! 0"
    using mlen s by simp
  show ?thesis
    using r len srt mrg snoc dup mlen spl l1 l2 ov unfolding m_def bl [symmetric]
    by blast
qed


theorem sorted_merge_split_witness:
  "[2, 1, 2] \<noteq> ([]::rat list) \<and> [3, 1, 4, 2] \<noteq> ([]::rat list)
   \<and> smallDomain example_collaborators [2, 1, 2] [3, 1, 4, 2]
       = Some \<lparr>Cardinality = 4, Generator = - 1, FrMultiplicativeGen = 2\<rparr>
   \<and> resize [2, 1, 2] [3, 1, 4, 2 :: rat] 4 = Some ([2, 1, 2, 2], [1, 2, 3, 4])
   \<and> sortedMerge [1, 2, 3, 4] [2, 1, 2, 2 :: rat] 4 = Some [1, 1, 2, 2, 2, 3, 4]
   \<and> splitMerge [1, 1, 2, 2, 2, 3, 4 :: rat] 4 = Some ([1, 1, 2, 2], [2, 2, 3, 4])
   \<and> [1, 1, 2, 2] ! (4 - 1) = [2, 2, 3, 4 :: rat] ! 0"
proof -
  have card: "smallDomain example_collaborators [2, 1, 2] [3, 1, 4, 2]
       = Some \<lparr>Cardinality = 4, Generator = - 1, FrMultiplicativeGen = 2\<rparr>"
    by (simp add: smallDomain_def NewDomain_def Let_def nextPowerOfTwo_def
        nextPowerOfTwo_from.simps example_collaborators_def)
  have run: "resize [2, 1, 2] [3, 1, 4, 2 :: rat] 4 = Some ([2, 1, 2, 2], [1, 2, 3, 4])"
    by (simp add: resize_eq)
  obtain lf lt m lh1 lh2 where
    r: "resize [2, 1, 2] [3, 1, 4, 2 :: rat] 4 = Some (lf, lt)"
    and mrg: "sortedMerge lt lf 4 = Some m" and m: "m = sort (lt @ butlast lf)"
    and spl: "splitMerge m 4 = Some (lh1, lh2)"
    and h: "lh1 = take 4 m" "lh2 = drop (4 - 1) m" "lh1 ! (4 - 1) = lh2 ! 0"
    using sorted_merge_split [OF _ _ card, of 4] by auto
  from r run have lf: "lf = [2, 1, 2, 2]" and lt: "lt = [1, 2, 3, 4]"
    by simp_all
  have m': "m = [1, 1, 2, 2, 2, 3, 4]"
    by (simp add: m lf lt)
  have h': "lh1 = [1, 1, 2, 2]" "lh2 = [2, 2, 3, 4]"
    by (simp_all add: h m')
  show ?thesis
    using card run mrg spl h(3) by (simp add: lf lt m' h')
qed

lemma Z_spec_update_last:
  "i < length lf \<Longrightarrow>
     Z_spec (lf[length lf - 1 := v]) lt lh1 lh2 beta gamma i = Z_spec lf lt lh1 lh2 beta gamma i"
  by (induction i) simp_all

section \<open>C10: the last element of the padded vector\<close>

text \<open>
  C10. For a padded vector \<open>lf\<close> and table \<open>lt\<close> of length \<open>s\<close>, only the first \<open>s - 1\<close>
  elements of \<open>lf\<close> enter the sorted merge, and \<open>evaluateAccumulationPolynomial\<close> does not
  read \<open>lf[s-1]\<close>: with any other value \<open>v\<close> at index \<open>s - 1\<close> and the same challenges,
  the sorted merge, hence \<open>h1\<close> and \<open>h2\<close>, and the accumulator \<open>Z\<close> are the same.
\<close>

theorem last_padded_element_unused:
  fixes lf lt :: "('a::{field,linorder}) list"
  assumes "length lf = s" "length lt = s" "0 < s"
  shows "\<exists>m lh1 lh2 Z.
      sortedMerge lt lf s = Some m \<and> m = sort (lt @ take (s - 1) lf)
    \<and> sortedMerge lt (lf[s - 1 := v]) s = Some m
    \<and> splitMerge m s = Some (lh1, lh2)
    \<and> evaluateAccumulationPolynomial lf lt lh1 lh2 beta gamma = Some Z
    \<and> evaluateAccumulationPolynomial (lf[s - 1 := v]) lt lh1 lh2 beta gamma = Some Z"
proof -
  define m where "m = sort (lt @ take (s - 1) lf)"
  have m1: "sortedMerge lt lf s = Some m"
    using assms by (simp add: sortedMerge_eq m_def)
  have m2: "sortedMerge lt (lf[s - 1 := v]) s = Some m"
    using assms by (simp add: sortedMerge_eq m_def)
  have mlen: "length m = 2 * s - 1"
    using assms by (simp add: m_def)
  have spl: "splitMerge m s = Some (take s m, drop (s - 1) m)"
    using mlen assms(3) by (rule splitMerge_eq)
  have l: "length (take s m) = s" "length (drop (s - 1) m) = s"
    using mlen assms(3) by auto
  have z1: "evaluateAccumulationPolynomial lf lt (take s m) (drop (s - 1) m) beta gamma
      = Some (map (Z_spec lf lt (take s m) (drop (s - 1) m) beta gamma) [0..<s])"
    using assms l evaluateAccumulationPolynomial_eq_spec [of lt "take s m" "drop (s - 1) m" lf]
    by simp
  have z2: "evaluateAccumulationPolynomial (lf[s - 1 := v]) lt (take s m) (drop (s - 1) m) beta gamma
      = Some (map (Z_spec (lf[s - 1 := v]) lt (take s m) (drop (s - 1) m) beta gamma) [0..<s])"
    using assms l
      evaluateAccumulationPolynomial_eq_spec [of lt "take s m" "drop (s - 1) m" "lf[s - 1 := v]"]
    by simp
  have same: "map (Z_spec (lf[s - 1 := v]) lt (take s m) (drop (s - 1) m) beta gamma) [0..<s]
      = map (Z_spec lf lt (take s m) (drop (s - 1) m) beta gamma) [0..<s]"
    using assms(1) Z_spec_update_last [of _ lf v] by auto
  show ?thesis
    using m1 m2 spl z1 z2 same unfolding m_def by auto
qed

theorem last_padded_element_unused_witness:
  "\<exists>m lh1 lh2 Z.
      sortedMerge [1, 2, 3, 4] [2, 1, 2, 2 :: rat] 4 = Some m
    \<and> sortedMerge [1, 2, 3, 4] [2, 1, 2, 7 :: rat] 4 = Some m
    \<and> splitMerge m 4 = Some (lh1, lh2)
    \<and> evaluateAccumulationPolynomial [2, 1, 2, 2] [1, 2, 3, 4] lh1 lh2 2 3 = Some Z
    \<and> evaluateAccumulationPolynomial [2, 1, 2, 7] [1, 2, 3, 4] lh1 lh2 2 3 = Some Z"
  using last_padded_element_unused [of "[2, 1, 2, 2 :: rat]" 4 "[1, 2, 3, 4]" 7 2 3]
  by simp


lemma Exp_nat: "Exp x (int n) = x ^ n"
  by (simp add: Exp_def)

lemma Exp_pred: "0 < n \<Longrightarrow> Exp x (int n - 1) = x ^ (n - 1)"
  by (simp add: Exp_def nat_diff_distrib')

lemma nextPowerOfTwo_pos: "0 < nextPowerOfTwo m"
  using nextPowerOfTwo_power [of m] by auto

lemma Cardinality_NewDomain_pos: "NewDomain env m = Some d \<Longrightarrow> 0 < Cardinality d"
  by (simp add: Cardinality_NewDomain nextPowerOfTwo_pos)

lemma checkRelation_None:
  "NewDomain env (proof_size p) = None \<Longrightarrow> checkRelation env p beta gamma alpha nu = None"
  by (simp add: checkRelation_def)

lemma checkRelation_eq:
  fixes p :: "('a::field, 'd, 'o) ProofLookupVector"
  assumes "6 \<le> length (ClaimedValues (BatchedProof p))"
    "4 \<le> length (ClaimedValues (BatchedProofShifted p))"
    and d: "NewDomain env (proof_size p) = Some d"
  shows "checkRelation env p beta gamma alpha nu =
    Some (if relationAt (Cardinality d) (Generator d ^ (Cardinality d - 1))
               beta gamma alpha nu
               (ClaimedValues (BatchedProof p)) (ClaimedValues (BatchedProofShifted p))
          then None else Some ErrPlookupVerification)"
proof -
  define cv where "cv = ClaimedValues (BatchedProof p)"
  define cvs where "cvs = ClaimedValues (BatchedProofShifted p)"
  have g: "Exp (Generator d) (int (Cardinality d) - 1) = Generator d ^ (Cardinality d - 1)"
    using d by (simp add: Exp_pred Cardinality_NewDomain_pos)
  have gets: "get_at cv 0 = Some (cv ! 0)" "get_at cv 1 = Some (cv ! 1)"
    "get_at cv 2 = Some (cv ! 2)" "get_at cv 3 = Some (cv ! 3)" "get_at cv 4 = Some (cv ! 4)"
    "get_at cv 5 = Some (cv ! 5)" "get_at cvs 0 = Some (cvs ! 0)" "get_at cvs 1 = Some (cvs ! 1)"
    "get_at cvs 2 = Some (cvs ! 2)" "get_at cvs 3 = Some (cvs ! 3)"
    using assms(1,2) by (auto simp: get_at_def cv_def cvs_def)
  define N where "N = Cardinality d"
  define gl where "gl = Generator d ^ (N - 1)"
  define L0 where "L0 = (nu ^ N - 1) / (nu - 1)"
  define Ln where "Ln = (nu ^ N - 1) / (nu - gl)"
  define code_h where "code_h =
      (nu - gl) * cv ! 3 * (1 + beta) * (gamma + cv ! 4)
          * (beta * cvs ! 2 + cv ! 2 + (1 + beta) * gamma)
      - (nu - gl) * cvs ! 3 * (beta * cvs ! 0 + cv ! 0 + (1 + beta) * gamma)
          * (beta * cvs ! 1 + cv ! 1 + (1 + beta) * gamma)"
  define spec_h where "spec_h =
      (nu - gl) * cv ! 3 * (1 + beta) * (gamma + cv ! 4)
          * (gamma * (1 + beta) + cv ! 2 + beta * cvs ! 2)
      - (nu - gl) * cvs ! 3 * (gamma * (1 + beta) + cv ! 0  + beta * cvs ! 0)
          * (gamma * (1 + beta) + cv ! 1 + beta * cvs ! 1)"
  have h: "code_h = spec_h"
    unfolding code_h_def spec_h_def by (simp add: ac_simps)
  have code: "checkRelation env p beta gamma alpha nu =
      Some (if ((((cv ! 0 - cvs ! 1) * Ln) * alpha + Ln * (cv ! 3 - 1)) * alpha
                  + (cv ! 3 - 1) * L0) * alpha + code_h \<noteq> cv ! 5 * (nu ^ N - 1)
            then Some ErrPlookupVerification else None)"
    unfolding checkRelation_def cv_def [symmetric] cvs_def [symmetric] d
    by (simp only: Let_def gets Option.bind.simps g Exp_nat code_h_def L0_def Ln_def gl_def N_def
        if_distrib [where f = Some])
  have spec: "relationAt N gl beta gamma alpha nu cv cvs \<longleftrightarrow>
      ((((cv ! 0 - cvs ! 1) * Ln) * alpha + Ln * (cv ! 3 - 1)) * alpha
                  + (cv ! 3 - 1) * L0) * alpha + code_h = cv ! 5 * (nu ^ N - 1)"
    unfolding relationAt_def horner_fold_def Let_def h spec_h_def L0_def Ln_def
    by (simp add: ac_simps)
  show ?thesis
    unfolding code spec cv_def [symmetric] cvs_def [symmetric]
      N_def [symmetric] gl_def [symmetric]
    by simp
qed


lemma deriveRandomness_error:
  "deriveRandomness env fs c ps = (Inl e, fs') \<Longrightarrow> e = ErrFiatShamir"
  by (auto simp: deriveRandomness_def Let_def split: list.splits if_splits)

lemma prepare_Running:
  assumes "prepare env srs f t = Some (Running l)"
  shows "var_err l = None"
    and "var_fs l = NewTranscript [''beta'', ''gamma'', ''alpha'', ''nu'']"
    and "smallDomain env f t = Some (var_domainSmall l)"
    and "proof_size (var_proof l) = Cardinality (var_domainSmall l)"
    and "Commit env (var_ct l) srs = Inr (proof_t (var_proof l))"
    and "Commit env (var_cf l) srs = Inr (proof_f (var_proof l))"
    and "Commit env (var_ch1 l) srs = Inr (proof_h1 (var_proof l))"
    and "Commit env (var_ch2 l) srs = Inr (proof_h2 (var_proof l))"
  using assms
  by (auto simp: prepare_def next_step_def commit_step_def start_def Let_def
      split: option.splits sum.splits flow.splits prod.splits Option.bind_splits)

lemma prepare_Returned:
  assumes "prepare env srs f t = Some (Returned l)"
  shows "\<exists>e. var_err l = Some (ErrKzg e)"
  using assms
  by (auto simp: prepare_def next_step_def commit_step_def start_def Let_def
      split: option.splits sum.splits flow.splits prod.splits Option.bind_splits)


lemma accumulatorRound_Running:
  assumes "accumulatorRound env srs l = Some (Running l')"
  shows "var_err l' = var_err l"
    and "var_domainSmall l' = var_domainSmall l"
    and "var_ct l' = var_ct l" and "var_cf l' = var_cf l"
    and "var_ch1 l' = var_ch1 l" and "var_ch2 l' = var_ch2 l"
    and "proof_size (var_proof l') = proof_size (var_proof l)"
    and "proof_t (var_proof l') = proof_t (var_proof l)"
    and "proof_f (var_proof l') = proof_f (var_proof l)"
    and "proof_h1 (var_proof l') = proof_h1 (var_proof l)"
    and "proof_h2 (var_proof l') = proof_h2 (var_proof l)"
    and "Commit env (var_cz l') srs = Inr (proof_z (var_proof l'))"
    and "\<exists>fs. deriveRandomness env (var_fs l) ''beta''
            [proof_t (var_proof l), proof_f (var_proof l), proof_h1 (var_proof l),
             proof_h2 (var_proof l)] = (Inr (var_beta l'), fs)
          \<and> deriveRandomness env fs ''gamma'' [] = (Inr (var_gamma l'), var_fs l')"
  using assms
  by (auto simp: accumulatorRound_def next_step_def commit_step_def derive_step_def Let_def
      split: option.splits sum.splits flow.splits prod.splits Option.bind_splits)

lemma accumulatorRound_Returned:
  assumes "accumulatorRound env srs l = Some (Returned l')"
  shows "(\<exists>e. var_err l' = Some (ErrKzg e)) \<or> var_err l' = Some ErrFiatShamir"
  using assms
  by (auto simp: accumulatorRound_def next_step_def commit_step_def derive_step_def Let_def
      dest: deriveRandomness_error
      split: option.splits sum.splits flow.splits prod.splits Option.bind_splits)

lemma quotientRound_Running:
  assumes "quotientRound env srs l = Some (Running l')"
  shows "var_err l' = var_err l"
    and "var_domainSmall l' = var_domainSmall l"
    and "var_ct l' = var_ct l" and "var_cf l' = var_cf l"
    and "var_ch1 l' = var_ch1 l" and "var_ch2 l' = var_ch2 l" and "var_cz l' = var_cz l"
    and "var_beta l' = var_beta l" and "var_gamma l' = var_gamma l"
    and "proof_size (var_proof l') = proof_size (var_proof l)"
    and "proof_t (var_proof l') = proof_t (var_proof l)"
    and "proof_f (var_proof l') = proof_f (var_proof l)"
    and "proof_h1 (var_proof l') = proof_h1 (var_proof l)"
    and "proof_h2 (var_proof l') = proof_h2 (var_proof l)"
    and "proof_z (var_proof l') = proof_z (var_proof l)"
    and "Commit env (var_ch l') srs = Inr (proof_h (var_proof l'))"
    and "deriveRandomness env (var_fs l) ''alpha'' [proof_z (var_proof l)]
          = (Inr (var_alpha l'), var_fs l')"
  using assms
  by (auto simp: quotientRound_def next_step_def commit_step_def derive_step_def Let_def
      split: option.splits sum.splits flow.splits prod.splits Option.bind_splits)

lemma quotientRound_Returned:
  assumes "quotientRound env srs l = Some (Returned l')"
  shows "(\<exists>e. var_err l' = Some (ErrKzg e)) \<or> var_err l' = Some ErrFiatShamir"
  using assms
  by (auto simp: quotientRound_def next_step_def commit_step_def derive_step_def Let_def
      dest: deriveRandomness_error
      split: option.splits sum.splits flow.splits prod.splits Option.bind_splits)

lemma openingRound_not_Running: "openingRound env srs l \<noteq> Some (Running l')"
  by (auto simp: openingRound_def next_step_def open_step_def derive_step_def Let_def
      split: option.splits sum.splits flow.splits prod.splits)

lemma openingRound_not_None: "openingRound env srs l \<noteq> None"
  by (auto simp: openingRound_def next_step_def open_step_def derive_step_def Let_def
      split: option.splits sum.splits flow.splits prod.splits)

lemma openingRound_Returned:
  assumes "openingRound env srs l = Some (Returned l')"
  shows "(\<exists>e. var_err l' = Some (ErrKzg e)) \<or> var_err l' = Some ErrFiatShamir
      \<or> (var_err l' = var_err l
          \<and> var_domainSmall l' = var_domainSmall l
          \<and> var_ct l' = var_ct l \<and> var_cf l' = var_cf l
          \<and> var_ch1 l' = var_ch1 l \<and> var_ch2 l' = var_ch2 l \<and> var_cz l' = var_cz l
          \<and> var_ch l' = var_ch l
          \<and> var_beta l' = var_beta l \<and> var_gamma l' = var_gamma l
          \<and> var_alpha l' = var_alpha l
          \<and> proof_size (var_proof l') = proof_size (var_proof l)
          \<and> proof_t (var_proof l') = proof_t (var_proof l)
          \<and> proof_f (var_proof l') = proof_f (var_proof l)
          \<and> proof_h1 (var_proof l') = proof_h1 (var_proof l)
          \<and> proof_h2 (var_proof l') = proof_h2 (var_proof l)
          \<and> proof_z (var_proof l') = proof_z (var_proof l)
          \<and> proof_h (var_proof l') = proof_h (var_proof l)
          \<and> deriveRandomness env (var_fs l) ''nu'' [proof_h (var_proof l)]
                = (Inr (var_nu l'), var_fs l')
          \<and> var_nu_shifted l' = var_nu l' * Generator (var_domainSmall l)
          \<and> BatchOpenSinglePoint env
                [var_ch1 l, var_ch2 l, var_ct l, var_cz l, var_cf l, var_ch l]
                [proof_h1 (var_proof l), proof_h2 (var_proof l), proof_t (var_proof l),
                 proof_z (var_proof l), proof_f (var_proof l), proof_h (var_proof l)]
                (var_nu l') (var_domainSmall l) srs = Inr (BatchedProof (var_proof l'))
          \<and> BatchOpenSinglePoint env
                [var_ch1 l, var_ch2 l, var_ct l, var_cz l]
                [proof_h1 (var_proof l), proof_h2 (var_proof l), proof_t (var_proof l),
                 proof_z (var_proof l)]
                (var_nu_shifted l') (var_domainSmall l) srs
                = Inr (BatchedProofShifted (var_proof l')))"
  using assms
  by (auto simp: openingRound_def next_step_def open_step_def derive_step_def Let_def
      dest: deriveRandomness_error
      split: option.splits sum.splits flow.splits prod.splits)


lemma challengeSchedule_shape:
  "map fst (challengeSchedule env t f h1 h2 z h) = [''beta'', ''gamma'', ''alpha'', ''nu'']"
  "map (fst \<circ> snd) (challengeSchedule env t f h1 h2 z h) = [[t, f, h1, h2], [], [z], [h]]"
  "length (challengeSchedule env t f h1 h2 z h) = 4"
  by (simp_all add: challengeSchedule_def Let_def)

lemma deriveChallenges_eq:
  "deriveChallenges env p =
     (let sched = challengeSchedule env (proof_t p) (proof_f p) (proof_h1 p) (proof_h2 p)
                    (proof_z p) (proof_h p)
      in (Inr (snd (snd (sched ! 0)), snd (snd (sched ! 1)), snd (snd (sched ! 2)),
               snd (snd (sched ! 3))),
          \<lparr>pending = [], bound = sched\<rparr>))"
  by (simp add: deriveChallenges_def deriveRandomness_def NewTranscript_def challengeSchedule_def
      Let_def)

lemma ProveLookupVector_locals_cases:
  assumes "ProveLookupVector_locals env srs f t = Some l"
  shows "prepare env srs f t = Some (Returned l)
    \<or> (\<exists>l1. prepare env srs f t = Some (Running l1)
        \<and> (accumulatorRound env srs l1 = Some (Returned l)
          \<or> (\<exists>l2. accumulatorRound env srs l1 = Some (Running l2)
              \<and> (quotientRound env srs l2 = Some (Returned l)
                \<or> (\<exists>l3. quotientRound env srs l2 = Some (Running l3)
                    \<and> openingRound env srs l3 = Some (Returned l))))))"
  using assms openingRound_not_Running [of env srs]
  by (auto simp: ProveLookupVector_locals_def next_step_def split: option.splits flow.splits)

lemma ProveLookupVector_success:
  assumes "ProveLookupVector_locals env srs f t = Some l" "var_err l = None"
  shows "\<exists>l1 l2 l3. prepare env srs f t = Some (Running l1)
      \<and> accumulatorRound env srs l1 = Some (Running l2)
      \<and> quotientRound env srs l2 = Some (Running l3)
      \<and> openingRound env srs l3 = Some (Returned l)"
  using ProveLookupVector_locals_cases [OF assms(1)] assms(2)
    prepare_Returned [of env srs f t l] accumulatorRound_Returned [of env srs _ l]
    quotientRound_Returned [of env srs _ l]
  by fastforce



lemma loop_first_panics:
  "a < b \<Longrightarrow> body a s = None \<Longrightarrow> loop [a..<b] body s = None"
  by (simp add: upt_conv_Cons)

lemma resize_empty_vector:
  fixes t :: "('a::{zero,linorder}) list"
  assumes "0 < s"
  shows "resize [] t s = None"
proof -
  have "loop [0..<s] (\<lambda>i lf. do { v \<leftarrow> get_at_int ([]::'a list) (int 0 - 1); set_at lf i v }) lf = None"
    for lf
    using assms by (intro loop_first_panics) (simp_all add: get_at_int_def)
  then show ?thesis
    by (simp add: resize_def make_slice_def)
qed

lemma resize_empty_table:
  fixes f :: "('a::{zero,linorder}) list"
  assumes "0 < s"
  shows "resize f [] s = None"
proof -
  have "loop [0..<s] (\<lambda>i lt. do { v \<leftarrow> get_at_int ([]::'a list) (int 0 - 1); set_at lt i v }) lt = None"
    for lt
    using assms by (intro loop_first_panics) (simp_all add: get_at_int_def)
  then show ?thesis
    by (simp add: resize_def make_slice_def split: Option.bind_splits)
qed

lemma prepare_domain_panics:
  "smallDomain env f t = None \<Longrightarrow> prepare env srs f t = None"
  by (simp add: prepare_def start_def)

lemma prepare_resize_panics:
  "smallDomain env f t = Some d \<Longrightarrow> resize f t (Cardinality d) = None
    \<Longrightarrow> prepare env srs f t = None"
  by (simp add: prepare_def start_def Let_def)

lemma ProveLookupVector_prepare_panics:
  "prepare env srs f t = None \<Longrightarrow> ProveLookupVector env srs f t = None"
  by (simp add: ProveLookupVector_def ProveLookupVector_locals_def next_step_def)

section \<open>C9: empty inputs\<close>

text \<open>
  C9, as the code has it. For every call of \<open>ProveLookupVector\<close> with an empty vector \<open>f\<close>
  or an empty table \<open>t\<close> the prover returns nothing, neither a proof nor an error: it
  panics in the padding loops of lines 401 to 406, which read \<open>f[len(f)-1]\<close> and
  \<open>t[len(t)-1]\<close>, before any commitment is made (if the small domain cannot be built, the
  panic is that of \<open>fft.NewDomain\<close>, earlier still).
\<close>

theorem empty_input_panics:
  assumes "f = [] \<or> t = []"
  shows "ProveLookupVector env srs f t = None"
proof (cases "smallDomain env f t")
  case None
  then show ?thesis
    by (intro ProveLookupVector_prepare_panics prepare_domain_panics)
next
  case (Some d)
  have "0 < Cardinality d"
    using smallDomain_bounds(1) [OF Some] by simp
  then have "resize f t (Cardinality d) = None"
    using assms resize_empty_vector resize_empty_table by auto
  with Some show ?thesis
    by (intro ProveLookupVector_prepare_panics prepare_resize_panics)
qed

theorem empty_input_panics_witness:
  "ProveLookupVector example_collaborators 3 [2] [] = None"
  using empty_input_panics [of "[2]" "[]" example_collaborators 3] by simp

text \<open>The claim as stated, that an empty vector makes the prover return an error, fails:
  with an empty vector and the table \<open>[3, 1, 4, 2]\<close> no error is returned.\<close>

theorem empty_vector_no_error:
  "\<not> (\<exists>p e. ProveLookupVector example_collaborators 3 [] [3, 1, 4, 2] = Some (p, Some e))"
proof -
  have d: "smallDomain example_collaborators [] [3, 1, 4, 2 :: rat]
      = Some \<lparr>Cardinality = 4, Generator = - 1, FrMultiplicativeGen = 2\<rparr>"
    by (simp add: smallDomain_def NewDomain_def Let_def nextPowerOfTwo_def
        nextPowerOfTwo_from.simps example_collaborators_def)
  have "resize [] [3, 1, 4, 2 :: rat] 4 = None"
    by (rule resize_empty_vector) simp
  then have "prepare example_collaborators 3 [] [3, 1, 4, 2] = None"
    using prepare_resize_panics [OF d, of 3] by simp
  then have "ProveLookupVector example_collaborators 3 [] [3, 1, 4, 2] = None"
    by (rule ProveLookupVector_prepare_panics)
  then show ?thesis by simp
qed


lemma takeWhile_upt_first:
  assumes "k < n" "\<And>i. i < k \<Longrightarrow> P (f i)" "\<not> P (f k)"
  shows "takeWhile P (map f [0..<n]) = map f [0..<k]"
proof -
  have "[0..<n] = [0..<k] @ k # [Suc k..<n]"
    using assms(1) by (metis le_add1 less_imp_add_positive upt_add_eq_append upt_conv_Cons add_0)
  then have "takeWhile P (map f [0..<n]) = takeWhile P (map f [0..<k] @ (f k # map f [Suc k..<n]))"
    by simp
  also have "\<dots> = map f [0..<k] @ takeWhile P (f k # map f [Suc k..<n])"
    by (rule takeWhile_append2) (use assms(2) in auto)
  finally show ?thesis
    using assms(3) by simp
qed

lemma TrailingZeros64_power:
  assumes "k < 64"
  shows "TrailingZeros64 (2 ^ k) = k"
proof -
  have "takeWhile Not (map (bit (2 ^ k :: 64 word)) [0..<64]) = map (bit (2 ^ k :: 64 word)) [0..<k]"
    using assms by (intro takeWhile_upt_first) (auto simp: bit_exp_iff)
  then show ?thesis
    by (simp add: TrailingZeros64_def)
qed

lemma shift_nn_power: "k < 64 \<Longrightarrow> shift_nn (2 ^ k) = 64 - k"
  by (simp add: shift_nn_def TrailingZeros64_power)

lemma bit_bitrev:
  assumes "k < 64"
  shows "bit (bitrev k i) m \<longleftrightarrow> m < k \<and> bit (word_of_nat i :: 64 word) (k - 1 - m)"
  using assms by (auto simp: bitrev_def bit_drop_bit_eq bit_word_reverse_iff)

lemma bitrev_less:
  assumes "k < 64"
  shows "unat (bitrev k i) < 2 ^ k"
proof -
  have "bitrev k i = take_bit k (bitrev k i)"
    by (rule bit_eqI) (auto simp: bit_take_bit_iff bit_bitrev assms)
  then have "unat (bitrev k i) = take_bit k (unat (bitrev k i))"
    by (metis unsigned_take_bit_eq)
  then show ?thesis
    by (metis take_bit_nat_less_exp)
qed

lemma bitrev_inj:
  assumes "k < 64" "i < 2 ^ k" "j < 2 ^ k" "bitrev k i = bitrev k j"
  shows "i = j"
proof -
  have low: "bit (word_of_nat i :: 64 word) n = bit (word_of_nat j :: 64 word) n" if "n < k" for n
  proof -
    have "bit (bitrev k i) (k - 1 - n) = bit (bitrev k j) (k - 1 - n)"
      using assms(4) by simp
    then show ?thesis
      using that assms(1) by (simp add: bit_bitrev)
  qed
  have high: "\<not> bit (word_of_nat x :: 64 word) n" if "x < 2 ^ k" "k \<le> n" for x n
  proof -
    have "x < 2 ^ n"
      using that by (meson le_trans less_le_not_le linorder_not_less power_increasing one_le_numeral)
    then have "\<not> bit x n"
      by (simp add: bit_iff_odd)
    then show ?thesis
      by (simp add: bit_of_nat_iff)
  qed
  have "(word_of_nat i :: 64 word) = word_of_nat j"
  proof (rule bit_eqI)
    fix n
    show "bit (word_of_nat i :: 64 word) n = bit (word_of_nat j :: 64 word) n"
      using low [of n] high [OF assms(2), of n] high [OF assms(3), of n]
      by (cases "n < k") auto
  qed
  moreover have "i < 2 ^ 64" "j < 2 ^ 64"
    using assms(1-3) by (meson less_trans power_strict_increasing one_less_numeral_iff semiring_norm(76))+
  ultimately have "unat (word_of_nat i :: 64 word) = unat (word_of_nat j :: 64 word)"
    "i mod 2 ^ 64 = i" "j mod 2 ^ 64 = j"
    by simp_all
  then show ?thesis
    by (simp add: unat_of_nat)
qed


lemma reversed_eq:
  assumes "k < 64"
  shows "reversed (64 - k) i = int (unat (bitrev k i))"
proof -
  define w where "w = bitrev k i"
  have "unat w < 2 ^ k"
    unfolding w_def using assms by (rule bitrev_less)
  also have "(2::nat) ^ k \<le> 2 ^ 63"
    using assms by (intro power_increasing) simp_all
  finally have "int (unat w) < int (2 ^ 63)"
    by (simp only: of_nat_less_iff)
  then have lt: "uint w < 2 ^ 63"
    by simp
  have ge: "- (2 ^ 63) \<le> uint w"
    by (rule order_trans [of _ 0]) simp_all
  have "signed_take_bit 63 (uint w) = uint w"
    using ge lt by (rule signed_take_bit_int_eq_self)
  moreover have "sint w = signed_take_bit 63 (uint w)"
    by (simp add: sint_uint)
  ultimately have "sint w = int (unat w)"
    by simp
  then show ?thesis
    by (simp only: reversed_def bitrev_def [symmetric] w_def)
qed

lemma reversed_bounds:
  assumes "k < 64"
  shows "0 \<le> reversed (64 - k) i" "nat (reversed (64 - k) i) < 2 ^ k"
  using bitrev_less [OF assms, of i] by (simp_all only: reversed_eq [OF assms] nat_int of_nat_0_le_iff)

lemma reversed_inj:
  assumes "k < 64" "i < 2 ^ k" "j < 2 ^ k" "reversed (64 - k) i = reversed (64 - k) j"
  shows "i = j"
proof -
  have "int (unat (bitrev k i)) = int (unat (bitrev k j))"
    using assms(4) by (simp only: reversed_eq [OF assms(1)])
  then have "unat (bitrev k i) = unat (bitrev k j)"
    by (simp only: of_nat_eq_iff)
  then have "bitrev k i = bitrev k j"
    by (simp only: word_unat_eq_iff)
  then show ?thesis
    using assms(1-3) by (intro bitrev_inj)
qed

lemma loop_scatter:
  assumes "\<And>i res. i < n \<Longrightarrow> length res = m \<Longrightarrow> body i res = Some (res[r i := v i])"
    and "\<And>i. i < n \<Longrightarrow> r i < m"
    and "\<And>i j. i < n \<Longrightarrow> j < n \<Longrightarrow> r i = r j \<Longrightarrow> i = j"
    and "length res0 = m"
  shows "\<exists>res. loop [0..<n] body res0 = Some res \<and> length res = m
      \<and> (\<forall>i<n. res ! r i = v i)"
  using assms(1-3)
proof (induction n)
  case 0
  then show ?case using assms(4) by simp
next
  case (Suc n)
  have "\<exists>res. loop [0..<n] body res0 = Some res \<and> length res = m \<and> (\<forall>i<n. res ! r i = v i)"
  proof (rule Suc.IH)
    show "body i res = Some (res[r i := v i])" if "i < n" "length res = m" for i res
      using that Suc.prems(1) [of i res] by simp
    show "r i < m" if "i < n" for i
      using that Suc.prems(2) [of i] by simp
    show "i = j" if "i < n" "j < n" "r i = r j" for i j
      using that Suc.prems(3) [of i j] by simp
  qed
  then obtain res where res: "loop [0..<n] body res0 = Some res" "length res = m"
    "\<forall>i<n. res ! r i = v i"
    by blast
  have step: "body n res = Some (res[r n := v n])"
    using Suc.prems(1) res(2) by simp
  have "(res[r n := v n]) ! r i = v i" if "i < Suc n" for i
  proof (cases "i = n")
    case True
    then show ?thesis using Suc.prems(2) [of n] res(2) by simp
  next
    case False
    then have "i < n" using that by simp
    moreover have "r i \<noteq> r n"
      using Suc.prems(3) [of i n] False that by auto
    ultimately show ?thesis using res(3) by simp
  qed
  then show ?case
    using res step by (simp add: loop_append)
qed


lemma get_at_int_reversed:
  assumes "k < 64" "length xs = 2 ^ k"
  shows "get_at_int xs (reversed (64 - k) i) = Some (xs ! nat (reversed (64 - k) i))"
  using reversed_bounds [OF assms(1), of i] assms(2) by (simp add: get_at_int_def get_at_def)

lemma set_at_int_reversed:
  assumes "k < 64" "length xs = 2 ^ k"
  shows "set_at_int xs (reversed (64 - k) i) v = Some (xs[nat (reversed (64 - k) i) := v])"
  using reversed_bounds [OF assms(1), of i] assms(2) by (simp add: set_at_int_def set_at_def)

lemma quotientLagrange_fold:
  fixes lh lh0 lhn lh1h2 :: "('a::field) list"
  assumes "Cardinality domainBig = 2 ^ k" "k < 64"
    and "length lh = 2 ^ k" "length lh0 = 2 ^ k" "length lhn = 2 ^ k" "length lh1h2 = 2 ^ k"
  shows "\<exists>res. quotientLagrange alpha lh lh0 lhn lh1h2 domainBig = Some res
      \<and> length res = 2 ^ k
      \<and> (\<forall>i<2 ^ k. res ! nat (reversed (64 - k) i) =
            horner_fold alpha (lh1h2 ! nat (reversed (64 - k) i)) (lhn ! nat (reversed (64 - k) i))
              (lh0 ! nat (reversed (64 - k) i)) (lh ! nat (reversed (64 - k) i))
            / pick2 (evaluateXnMinusOneDomainBig domainBig) (i mod 2))"
proof -
  define xn where "xn = evaluateXnMinusOneDomainBig domainBig"
  define r where "r i = nat (reversed (64 - k) i)" for i
  define v where "v i = horner_fold alpha (lh1h2 ! r i) (lhn ! r i) (lh0 ! r i) (lh ! r i)
      / pick2 xn (i mod 2)" for i
  define body where "body = (\<lambda>i res. do {
            let x_i = reversed (64 - k) i;
            a \<leftarrow> get_at_int lh1h2 x_i;
            b \<leftarrow> get_at_int lhn x_i;
            c \<leftarrow> get_at_int lh0 x_i;
            d \<leftarrow> get_at_int lh x_i;
            set_at_int res x_i ((((a * alpha + b) * alpha + c) * alpha + d)
              * pick2 (inverse (fst xn), inverse (snd xn)) (i mod 2))
          })"
  have pick: "pick2 (inverse (fst xn), inverse (snd xn)) j = inverse (pick2 xn j)" for j
    by (simp add: pick2_def)
  have body: "body i res = Some (res[r i := v i])" if "length res = 2 ^ k" for i and res :: "'a list"
    unfolding body_def Let_def
    by (simp add: get_at_int_reversed set_at_int_reversed assms that pick r_def v_def
        horner_fold_def divide_inverse)
  have "\<exists>res. loop [0..<2 ^ k] body (replicate (2 ^ k) 0) = Some res \<and> length res = 2 ^ k
      \<and> (\<forall>i<2 ^ k. res ! r i = v i)"
  proof (rule loop_scatter)
    show "body i res = Some (res[r i := v i])" if "i < 2 ^ k" "length res = 2 ^ k"
      for i and res :: "'a list"
      using that(2) by (rule body)
    show "r i < 2 ^ k" for i
      unfolding r_def using assms(2) by (rule reversed_bounds)
    show "i = j" if "i < 2 ^ k" "j < 2 ^ k" "r i = r j" for i j
    proof -
      have "reversed (64 - k) i = reversed (64 - k) j"
        using that(3) reversed_bounds(1) [OF assms(2), of i] reversed_bounds(1) [OF assms(2), of j]
        by (simp add: r_def)
      then show ?thesis
        using assms(2) that(1,2) by (intro reversed_inj)
    qed
    show "length (replicate (2 ^ k) (0::'a)) = 2 ^ k"
      by simp
  qed
  moreover have "quotientLagrange alpha lh lh0 lhn lh1h2 domainBig
      = loop [0..<2 ^ k] body (replicate (2 ^ k) 0)"
    unfolding quotientLagrange_def body_def xn_def
    by (simp add: assms(1,2) make_slice_def shift_nn_power Let_def)
  ultimately show ?thesis
    unfolding r_def v_def xn_def by simp
qed


lemma VerifyLookupVector_eq:
  "VerifyLookupVector env srs p =
     (let sched = challengeSchedule env (proof_t p) (proof_f p) (proof_h1 p) (proof_h2 p)
                    (proof_z p) (proof_h p)
      in case checkOpenings env srs p of
           Some e \<Rightarrow> Some (Some e)
         | None \<Rightarrow> checkRelation env p (snd (snd (sched ! 0))) (snd (snd (sched ! 1)))
                     (snd (snd (sched ! 2))) (snd (snd (sched ! 3))))"
  by (simp add: VerifyLookupVector_def VerifyLookupVector_fs_def deriveChallenges_eq Let_def
      split: option.splits)

lemma checkOpenings_None:
  "checkOpenings env srs p = None \<longleftrightarrow>
     BatchVerifySinglePoint env
       [proof_h1 p, proof_h2 p, proof_t p, proof_z p, proof_f p, proof_h p] (BatchedProof p) srs
       = None
   \<and> BatchVerifySinglePoint env [proof_h1 p, proof_h2 p, proof_t p, proof_z p]
       (BatchedProofShifted p) srs = None"
  by (auto simp: checkOpenings_def split: option.splits)

lemma checkOpenings_first:
  "BatchVerifySinglePoint env
       [proof_h1 p, proof_h2 p, proof_t p, proof_z p, proof_f p, proof_h p] (BatchedProof p) srs
       = Some e \<Longrightarrow> checkOpenings env srs p = Some (ErrKzg e)"
  by (simp add: checkOpenings_def)

lemma checkOpenings_second:
  "BatchVerifySinglePoint env
       [proof_h1 p, proof_h2 p, proof_t p, proof_z p, proof_f p, proof_h p] (BatchedProof p) srs
       = None \<Longrightarrow>
   BatchVerifySinglePoint env [proof_h1 p, proof_h2 p, proof_t p, proof_z p]
       (BatchedProofShifted p) srs = Some e \<Longrightarrow> checkOpenings env srs p = Some (ErrKzg e)"
  by (simp add: checkOpenings_def)

lemma checkOpenings_Some:
  "checkOpenings env srs p = Some err \<Longrightarrow> \<exists>e. err = ErrKzg e"
  by (auto simp: checkOpenings_def split: option.splits)

section \<open>C3: what the verifier returns\<close>

text \<open>
  C3. For a proof with six values claimed at \<open>nu\<close> and four at the shifted point: the four
  challenges are derived without error; \<open>VerifyLookupVector\<close> returns \<open>nil\<close> if and only if
  both batched openings verify, the domain of size \<open>proof.size\<close> can be built and the folded
  relation holds at \<open>nu\<close>; a batched opening that fails is returned with its own error (the
  first one first), which is never the sentinel; the sentinel \<open>ErrPlookupVerification\<close> is
  returned exactly when both openings verify, the domain can be built and the relation
  fails; and the verifier panics (at line 640) exactly when both openings verify and there
  is no domain of size \<open>proof.size\<close>.
\<close>

theorem verify_accounting:
  fixes p :: "('a::field, 'd, 'o) ProofLookupVector"
  assumes "6 \<le> length (ClaimedValues (BatchedProof p))"
    and "4 \<le> length (ClaimedValues (BatchedProofShifted p))"
  shows "\<exists>beta gamma alpha nu fs.
      deriveChallenges env p = (Inr (beta, gamma, alpha, nu), fs)
    \<and> (let first = BatchVerifySinglePoint env
              [proof_h1 p, proof_h2 p, proof_t p, proof_z p, proof_f p, proof_h p]
              (BatchedProof p) srs;
            second = BatchVerifySinglePoint env [proof_h1 p, proof_h2 p, proof_t p, proof_z p]
              (BatchedProofShifted p) srs;
            domain = NewDomain env (proof_size p);
            holds = (\<lambda>d. relationAt (Cardinality d) (Generator d ^ (Cardinality d - 1))
              beta gamma alpha nu
              (ClaimedValues (BatchedProof p)) (ClaimedValues (BatchedProofShifted p)))
        in (VerifyLookupVector env srs p = Some None \<longleftrightarrow>
              first = None \<and> second = None \<and> (\<exists>d. domain = Some d \<and> holds d))
         \<and> (\<forall>e. first = Some e \<longrightarrow> VerifyLookupVector env srs p = Some (Some (ErrKzg e)))
         \<and> (\<forall>e. first = None \<longrightarrow> second = Some e \<longrightarrow>
               VerifyLookupVector env srs p = Some (Some (ErrKzg e)))
         \<and> (VerifyLookupVector env srs p = Some (Some ErrPlookupVerification) \<longleftrightarrow>
               first = None \<and> second = None \<and> (\<exists>d. domain = Some d \<and> \<not> holds d))
         \<and> (VerifyLookupVector env srs p = None \<longleftrightarrow>
               first = None \<and> second = None \<and> domain = None)
         \<and> (\<forall>e. ErrKzg e \<noteq> (ErrPlookupVerification :: 'x error)))"
proof -
  define sched where "sched = challengeSchedule env (proof_t p) (proof_f p) (proof_h1 p)
      (proof_h2 p) (proof_z p) (proof_h p)"
  define beta where "beta = snd (snd (sched ! 0))"
  define gamma where "gamma = snd (snd (sched ! 1))"
  define alpha where "alpha = snd (snd (sched ! 2))"
  define nu where "nu = snd (snd (sched ! 3))"
  define first where "first = BatchVerifySinglePoint env
         [proof_h1 p, proof_h2 p, proof_t p, proof_z p, proof_f p, proof_h p] (BatchedProof p) srs"
  define second where "second = BatchVerifySinglePoint env
         [proof_h1 p, proof_h2 p, proof_t p, proof_z p] (BatchedProofShifted p) srs"
  define domain where "domain = NewDomain env (proof_size p)"
  define holds where "holds = (\<lambda>d :: 'a Domain.
         relationAt (Cardinality d) (Generator d ^ (Cardinality d - 1))
         beta gamma alpha nu
         (ClaimedValues (BatchedProof p)) (ClaimedValues (BatchedProofShifted p)))"
  have ch: "deriveChallenges env p = (Inr (beta, gamma, alpha, nu), \<lparr>pending = [], bound = sched\<rparr>)"
    by (simp add: deriveChallenges_eq Let_def sched_def beta_def gamma_def alpha_def nu_def)
  have rel: "checkRelation env p beta gamma alpha nu
      = (case domain of None \<Rightarrow> None
         | Some d \<Rightarrow> Some (if holds d then None else Some ErrPlookupVerification))"
  proof (cases domain)
    case None
    then show ?thesis
      unfolding domain_def by (simp add: checkRelation_None)
  next
    case (Some d)
    then show ?thesis
      unfolding domain_def holds_def using checkRelation_eq [OF assms, of env d] by simp
  qed
  have v: "VerifyLookupVector env srs p =
      (case checkOpenings env srs p of Some e \<Rightarrow> Some (Some e)
       | None \<Rightarrow> (case domain of None \<Rightarrow> None
           | Some d \<Rightarrow> Some (if holds d then None else Some ErrPlookupVerification)))"
    unfolding VerifyLookupVector_eq Let_def sched_def [symmetric] beta_def [symmetric]
      gamma_def [symmetric] alpha_def [symmetric] nu_def [symmetric] rel
    by simp
  have op: "checkOpenings env srs p =
      (case first of Some e \<Rightarrow> Some (ErrKzg e)
       | None \<Rightarrow> (case second of Some e \<Rightarrow> Some (ErrKzg e) | None \<Rightarrow> None))"
    unfolding checkOpenings_def first_def second_def ..
  have a: "VerifyLookupVector env srs p = Some None \<longleftrightarrow>
      first = None \<and> second = None \<and> (\<exists>d. domain = Some d \<and> holds d)"
    by (auto simp: v op split: option.splits)
  have b: "\<forall>e. first = Some e \<longrightarrow> VerifyLookupVector env srs p = Some (Some (ErrKzg e))"
    by (auto simp: v op split: option.splits)
  have c: "\<forall>e. first = None \<longrightarrow> second = Some e \<longrightarrow>
          VerifyLookupVector env srs p = Some (Some (ErrKzg e))"
    by (auto simp: v op split: option.splits)
  have d: "VerifyLookupVector env srs p = Some (Some ErrPlookupVerification) \<longleftrightarrow>
          first = None \<and> second = None \<and> (\<exists>d. domain = Some d \<and> \<not> holds d)"
    by (auto simp: v op split: option.splits)
  have n: "VerifyLookupVector env srs p = None \<longleftrightarrow>
          first = None \<and> second = None \<and> domain = None"
    by (auto simp: v op split: option.splits)
  have e: "\<forall>e. ErrKzg e \<noteq> (ErrPlookupVerification :: 'x error)"
    by simp
  have all: "deriveChallenges env p = (Inr (beta, gamma, alpha, nu), \<lparr>pending = [], bound = sched\<rparr>)
    \<and> (let first = BatchVerifySinglePoint env
              [proof_h1 p, proof_h2 p, proof_t p, proof_z p, proof_f p, proof_h p]
              (BatchedProof p) srs;
            second = BatchVerifySinglePoint env [proof_h1 p, proof_h2 p, proof_t p, proof_z p]
              (BatchedProofShifted p) srs;
            domain = NewDomain env (proof_size p);
            holds = (\<lambda>d. relationAt (Cardinality d) (Generator d ^ (Cardinality d - 1))
              beta gamma alpha nu
              (ClaimedValues (BatchedProof p)) (ClaimedValues (BatchedProofShifted p)))
        in (VerifyLookupVector env srs p = Some None \<longleftrightarrow>
              first = None \<and> second = None \<and> (\<exists>d. domain = Some d \<and> holds d))
         \<and> (\<forall>e. first = Some e \<longrightarrow> VerifyLookupVector env srs p = Some (Some (ErrKzg e)))
         \<and> (\<forall>e. first = None \<longrightarrow> second = Some e \<longrightarrow>
               VerifyLookupVector env srs p = Some (Some (ErrKzg e)))
         \<and> (VerifyLookupVector env srs p = Some (Some ErrPlookupVerification) \<longleftrightarrow>
               first = None \<and> second = None \<and> (\<exists>d. domain = Some d \<and> \<not> holds d))
         \<and> (VerifyLookupVector env srs p = None \<longleftrightarrow>
               first = None \<and> second = None \<and> domain = None)
         \<and> (\<forall>e. ErrKzg e \<noteq> (ErrPlookupVerification :: 'x error)))"
    unfolding Let_def first_def [symmetric] second_def [symmetric] domain_def [symmetric]
      holds_def [symmetric]
    by (intro conjI ch a b c d n e)
  show ?thesis
    by (intro exI) (rule all)
qed

lemma example_challenges:
  "deriveChallenges example_collaborators (example_proof x)
     = (Inr (2, 3, 4, 5),
        \<lparr>pending = [],
         bound = [(''beta'', [0, 0, 0, 0], 2), (''gamma'', [], 3), (''alpha'', [0], 4),
                  (''nu'', [0], 5)]\<rparr>)"
  by (simp add: deriveChallenges_eq challengeSchedule_def example_collaborators_def
      example_proof_def Let_def)

lemma example_domain:
  "NewDomain example_collaborators 2
     = Some \<lparr>Cardinality = 2, Generator = - 1, FrMultiplicativeGen = 2\<rparr>"
  by (simp add: NewDomain_def Let_def nextPowerOfTwo_def nextPowerOfTwo_from.simps
      example_collaborators_def)

lemma example_no_domain: "NewDomain example_collaborators 5 = None"
  by (simp add: NewDomain_def Let_def nextPowerOfTwo_def nextPowerOfTwo_from.simps
      example_collaborators_def)

lemma example_relation:
  "relationAt 2 (- 1) 2 3 4 5 [1, 1, 1, 1, 1, x] [1, 1, 1, 1] \<longleftrightarrow> x = (0::rat)"
  by (simp add: relationAt_def horner_fold_def Let_def)

theorem verify_accounting_witness:
  "VerifyLookupVector example_collaborators 3 (example_proof 0) = Some None
   \<and> VerifyLookupVector example_collaborators 3 (example_proof 7)
       = Some (Some ErrPlookupVerification)
   \<and> VerifyLookupVector example_collaborators 3 ((example_proof 0)\<lparr>proof_size := 5\<rparr>) = None"
proof -
  have run: "VerifyLookupVector example_collaborators 3 ((example_proof x)\<lparr>proof_size := m\<rparr>)
      = (case NewDomain example_collaborators m of None \<Rightarrow> None
         | Some d \<Rightarrow> Some (if relationAt (Cardinality d) (Generator d ^ (Cardinality d - 1))
              2 3 4 5 [1, 1, 1, 1, 1, x] [1, 1, 1, 1] then None else Some ErrPlookupVerification))"
    for x m
  proof -
    define q where "q = (example_proof x)\<lparr>proof_size := m\<rparr>"
    have lens: "6 \<le> length (ClaimedValues (BatchedProof q))"
      "4 \<le> length (ClaimedValues (BatchedProofShifted q))"
      by (simp_all add: example_proof_def q_def)
    have chq: "deriveChallenges example_collaborators q
        = deriveChallenges example_collaborators (example_proof x)"
      by (simp add: deriveChallenges_eq q_def)
    obtain beta gamma alpha nu fs where
      ch: "deriveChallenges example_collaborators q = (Inr (beta, gamma, alpha, nu), fs)"
      and rest: "let first = BatchVerifySinglePoint example_collaborators
              [proof_h1 q, proof_h2 q, proof_t q, proof_z q, proof_f q, proof_h q]
              (BatchedProof q) 3;
            second = BatchVerifySinglePoint example_collaborators
              [proof_h1 q, proof_h2 q, proof_t q, proof_z q] (BatchedProofShifted q) 3;
            domain = NewDomain example_collaborators (proof_size q);
            holds = (\<lambda>d. relationAt (Cardinality d) (Generator d ^ (Cardinality d - 1))
              beta gamma alpha nu
              (ClaimedValues (BatchedProof q)) (ClaimedValues (BatchedProofShifted q)))
        in (VerifyLookupVector example_collaborators 3 q = Some None \<longleftrightarrow>
              first = None \<and> second = None \<and> (\<exists>d. domain = Some d \<and> holds d))
         \<and> (\<forall>e. first = Some e \<longrightarrow>
               VerifyLookupVector example_collaborators 3 q = Some (Some (ErrKzg e)))
         \<and> (\<forall>e. first = None \<longrightarrow> second = Some e \<longrightarrow>
               VerifyLookupVector example_collaborators 3 q = Some (Some (ErrKzg e)))
         \<and> (VerifyLookupVector example_collaborators 3 q
               = Some (Some ErrPlookupVerification) \<longleftrightarrow>
               first = None \<and> second = None \<and> (\<exists>d. domain = Some d \<and> \<not> holds d))
         \<and> (VerifyLookupVector example_collaborators 3 q = None \<longleftrightarrow>
               first = None \<and> second = None \<and> domain = None)
         \<and> (\<forall>e. ErrKzg e \<noteq> (ErrPlookupVerification :: unit error))"
      using verify_accounting [OF lens, of example_collaborators 3] by blast
    have vals: "beta = 2" "gamma = 3" "alpha = 4" "nu = 5"
      using ch by (simp_all add: chq example_challenges)
    have size: "proof_size q = m"
      "ClaimedValues (BatchedProof q) = [1, 1, 1, 1, 1, x]"
      "ClaimedValues (BatchedProofShifted q) = [1, 1, 1, 1]"
      by (simp_all add: example_proof_def q_def)
    have checks: "BatchVerifySinglePoint example_collaborators
              [proof_h1 q, proof_h2 q, proof_t q, proof_z q, proof_f q, proof_h q]
              (BatchedProof q) 3 = None"
      "BatchVerifySinglePoint example_collaborators
              [proof_h1 q, proof_h2 q, proof_t q, proof_z q] (BatchedProofShifted q) 3 = None"
      by (simp_all add: example_proof_def example_collaborators_def q_def)
    have facts: "(VerifyLookupVector example_collaborators 3 q = Some None) =
          (\<exists>d. NewDomain example_collaborators m = Some d
             \<and> relationAt (Cardinality d) (Generator d ^ (Cardinality d - 1))
                 2 3 4 5 [1, 1, 1, 1, 1, x] [1, 1, 1, 1])"
      "(VerifyLookupVector example_collaborators 3 q = Some (Some ErrPlookupVerification)) =
          (\<exists>d. NewDomain example_collaborators m = Some d
             \<and> \<not> relationAt (Cardinality d) (Generator d ^ (Cardinality d - 1))
                 2 3 4 5 [1, 1, 1, 1, 1, x] [1, 1, 1, 1])"
      "(VerifyLookupVector example_collaborators 3 q = None) =
          (NewDomain example_collaborators m = None)"
      using rest unfolding Let_def vals size checks by simp_all
    show ?thesis
      unfolding q_def [symmetric]
    proof (cases "NewDomain example_collaborators m")
      case None
      then show "VerifyLookupVector example_collaborators 3 q =
        (case NewDomain example_collaborators m of None \<Rightarrow> None
         | Some d \<Rightarrow> Some (if relationAt (Cardinality d) (Generator d ^ (Cardinality d - 1))
              2 3 4 5 [1, 1, 1, 1, 1, x] [1, 1, 1, 1] then None else Some ErrPlookupVerification))"
        using facts(3) by simp
    next
      case (Some d)
      then show "VerifyLookupVector example_collaborators 3 q =
        (case NewDomain example_collaborators m of None \<Rightarrow> None
         | Some d \<Rightarrow> Some (if relationAt (Cardinality d) (Generator d ^ (Cardinality d - 1))
              2 3 4 5 [1, 1, 1, 1, 1, x] [1, 1, 1, 1] then None else Some ErrPlookupVerification))"
        using facts(1,2) by simp
    qed
  qed
  have same: "(example_proof x)\<lparr>proof_size := 2\<rparr> = example_proof x" for x
    by (simp add: example_proof_def)
  have "VerifyLookupVector example_collaborators 3 (example_proof x)
      = Some (if x = 0 then None else Some ErrPlookupVerification)" for x
    using run [where x = x and m = 2] by (simp add: same example_domain example_relation)
  moreover have "VerifyLookupVector example_collaborators 3 ((example_proof 0)\<lparr>proof_size := 5\<rparr>)
      = None"
    using run [where x = 0 and m = 5] by (simp add: example_no_domain)
  ultimately show ?thesis
    by simp
qed

section \<open>C6: the relation the verifier reconstructs\<close>

text \<open>
  Claim C6. For a proof with the values \<open>h1, h2, t, z, f, claimed_h\<close> claimed at \<open>nu\<close> and
  \<open>h1g, h2g, tg, zg\<close> claimed at the shifted point, whose two batched openings verify and
  for whose size \<open>fft.NewDomain\<close> returns a domain \<open>d\<close> (line 640),
  \<open>VerifyLookupVector\<close> accepts exactly when the fold of the four reconstructed terms with
  \<open>alpha\<close> equals \<open>claimed_h * (nu ^ N - 1)\<close>, and returns \<open>ErrPlookupVerification\<close> otherwise.
  Here \<open>N\<close> is the cardinality of \<open>d\<close>, \<open>g\<close> is its generator to the power
  \<open>N - 1\<close>, \<open>L0 = (nu ^ N - 1) / (nu - 1)\<close> and \<open>Ln = (nu ^ N - 1) / (nu - g)\<close> are single field
  divisions, and the fold is
  \<open>((Ln * (h1 - h2g) * alpha + Ln * (z - 1)) * alpha + L0 * (z - 1)) * alpha + h\<close>.
  The quotient assembly of the prover (\<open>computeQuotientCanonical\<close>) folds its four pieces
  \<open>lh1h2, lhn, lh0, lh\<close> in the same order at every point of the big domain, divides by
  the value of \<open>x^n - 1\<close> there, and hands the result to the inverse transform.
\<close>

theorem verifier_equation:
  fixes p :: "('a::field, 'd, 'o) ProofLookupVector" and lh lh0 lhn lh1h2 :: "'a list"
  assumes "ClaimedValues (BatchedProof p) = [h1, h2, t, z, f, claimed_h]"
    and "ClaimedValues (BatchedProofShifted p) = [h1g, h2g, tg, zg]"
    and "deriveChallenges env p = (Inr (beta, gamma, alpha, nu), fs)"
    and "checkOpenings env srs p = None"
    and "NewDomain env (proof_size p) = Some d"
    and "Cardinality domainBig = 2 ^ k" "k < 64"
    and "length lh = 2 ^ k" "length lh0 = 2 ^ k" "length lhn = 2 ^ k" "length lh1h2 = 2 ^ k"
  shows "(let N = Cardinality d;
              g = Generator d ^ (N - 1);
              L0 = (nu ^ N - 1) / (nu - 1);
              Ln = (nu ^ N - 1) / (nu - g);
              h = (nu - g) * z * (1 + beta) * (gamma + f) * (gamma * (1 + beta) + t + beta * tg)
                  - (nu - g) * zg * (gamma * (1 + beta) + h1 + beta * h1g)
                      * (gamma * (1 + beta) + h2 + beta * h2g);
              fold = horner_fold alpha (Ln * (h1 - h2g)) (Ln * (z - 1)) (L0 * (z - 1)) h;
              xn = evaluateXnMinusOneDomainBig domainBig
          in VerifyLookupVector env srs p =
               Some (if fold = claimed_h * (nu ^ N - 1) then None else Some ErrPlookupVerification)
           \<and> (\<exists>res. quotientLagrange alpha lh lh0 lhn lh1h2 domainBig = Some res
                \<and> computeQuotientCanonical env alpha lh lh0 lhn lh1h2 domainBig
                    = Some (FFTInverse env domainBig res DIT True)
                \<and> length res = 2 ^ k
                \<and> (\<forall>i<2 ^ k. res ! nat (reversed (64 - k) i) =
                      horner_fold alpha (lh1h2 ! nat (reversed (64 - k) i))
                        (lhn ! nat (reversed (64 - k) i)) (lh0 ! nat (reversed (64 - k) i))
                        (lh ! nat (reversed (64 - k) i)) / pick2 xn (i mod 2))))"
proof -
  define N where "N = Cardinality d"
  define g where "g = Generator d ^ (N - 1)"
  define sched where "sched = challengeSchedule env (proof_t p) (proof_f p) (proof_h1 p)
      (proof_h2 p) (proof_z p) (proof_h p)"
  have lens: "6 \<le> length (ClaimedValues (BatchedProof p))"
    "4 \<le> length (ClaimedValues (BatchedProofShifted p))"
    using assms(1,2) by simp_all
  have ch: "snd (snd (sched ! 0)) = beta" "snd (snd (sched ! 1)) = gamma"
    "snd (snd (sched ! 2)) = alpha" "snd (snd (sched ! 3)) = nu"
    using assms(3) unfolding deriveChallenges_eq Let_def sched_def by simp_all
  have v: "VerifyLookupVector env srs p = checkRelation env p beta gamma alpha nu"
    unfolding VerifyLookupVector_eq Let_def sched_def [symmetric] ch assms(4) by simp
  have rel: "checkRelation env p beta gamma alpha nu =
      Some (if relationAt N g beta gamma alpha nu [h1, h2, t, z, f, claimed_h] [h1g, h2g, tg, zg]
            then None else Some ErrPlookupVerification)"
    unfolding N_def g_def assms(1,2) [symmetric] using lens assms(5) by (rule checkRelation_eq)
  have first: "VerifyLookupVector env srs p =
      Some (if horner_fold alpha
                 ((nu ^ N - 1) / (nu - g) * (h1 - h2g)) ((nu ^ N - 1) / (nu - g) * (z - 1))
                 ((nu ^ N - 1) / (nu - 1) * (z - 1))
                 ((nu - g) * z * (1 + beta) * (gamma + f) * (gamma * (1 + beta) + t + beta * tg)
                  - (nu - g) * zg * (gamma * (1 + beta) + h1 + beta * h1g)
                      * (gamma * (1 + beta) + h2 + beta * h2g))
               = claimed_h * (nu ^ N - 1)
            then None else Some ErrPlookupVerification)"
    unfolding v rel relationAt_def Let_def by simp
  obtain res where res: "quotientLagrange alpha lh lh0 lhn lh1h2 domainBig = Some res"
    "length res = 2 ^ k"
    "\<forall>i<2 ^ k. res ! nat (reversed (64 - k) i) =
            horner_fold alpha (lh1h2 ! nat (reversed (64 - k) i)) (lhn ! nat (reversed (64 - k) i))
              (lh0 ! nat (reversed (64 - k) i)) (lh ! nat (reversed (64 - k) i))
            / pick2 (evaluateXnMinusOneDomainBig domainBig) (i mod 2)"
    using quotientLagrange_fold [OF assms(6-11), of alpha] by blast
  have canon: "computeQuotientCanonical env alpha lh lh0 lhn lh1h2 domainBig
                    = Some (FFTInverse env domainBig res DIT True)"
    by (simp add: computeQuotientCanonical_def res(1))
  have second: "\<exists>res. quotientLagrange alpha lh lh0 lhn lh1h2 domainBig = Some res
                \<and> computeQuotientCanonical env alpha lh lh0 lhn lh1h2 domainBig
                    = Some (FFTInverse env domainBig res DIT True)
                \<and> length res = 2 ^ k
                \<and> (\<forall>i<2 ^ k. res ! nat (reversed (64 - k) i) =
                      horner_fold alpha (lh1h2 ! nat (reversed (64 - k) i))
                        (lhn ! nat (reversed (64 - k) i)) (lh0 ! nat (reversed (64 - k) i))
                        (lh ! nat (reversed (64 - k) i))
                      / pick2 (evaluateXnMinusOneDomainBig domainBig) (i mod 2))"
    using res canon by (intro exI [of _ res] conjI)
  show ?thesis
    unfolding Let_def N_def [symmetric] g_def [symmetric]
    using first second by (rule conjI)
qed

lemma example_reversed: "reversed 62 1 = 2"
  by code_simp

theorem verifier_equation_witness:
  "ClaimedValues (BatchedProof (example_proof 7)) = [1, 1, 1, 1, 1, 7]
   \<and> ClaimedValues (BatchedProofShifted (example_proof 7)) = [1, 1, 1, 1]
   \<and> fst (deriveChallenges example_collaborators (example_proof 7)) = Inr (2, 3, 4, 5)
   \<and> checkOpenings example_collaborators 3 (example_proof 7) = None
   \<and> NewDomain example_collaborators (proof_size (example_proof 7))
       = Some \<lparr>Cardinality = 2, Generator = - 1, FrMultiplicativeGen = 2\<rparr>
   \<and> Cardinality example_domainBig = 2 ^ 2
   \<and> VerifyLookupVector example_collaborators 3 (example_proof 7)
       = Some (Some ErrPlookupVerification)
   \<and> (\<exists>res. quotientLagrange 4 [1, 2, 3, 4] [5, 6, 7, 8] [9, 10, 11, 12] [13, 14, 15, 16]
               example_domainBig = Some res
        \<and> computeQuotientCanonical example_collaborators 4 [1, 2, 3, 4] [5, 6, 7, 8]
             [9, 10, 11, 12] [13, 14, 15, 16] example_domainBig = Some res
        \<and> length res = 4
        \<and> res ! 2 = (((15 * 4 + 11) * 4 + 7) * 4 + 3) / (- 5))"
proof -
  have cv: "ClaimedValues (BatchedProof (example_proof 7)) = [1, 1, 1, 1, 1, 7]"
    and cvs: "ClaimedValues (BatchedProofShifted (example_proof 7)) = [1, 1, 1, 1]"
    and size: "proof_size (example_proof 7) = 2"
    by (simp_all add: example_proof_def)
  have op: "checkOpenings example_collaborators 3 (example_proof 7) = None"
    by (simp add: checkOpenings_def example_proof_def example_collaborators_def)
  have card: "Cardinality example_domainBig = 2 ^ 2"
    by (simp add: example_domainBig_def)
  have xn: "pick2 (evaluateXnMinusOneDomainBig example_domainBig) (Suc 0) = - 5"
    by (simp add: evaluateXnMinusOneDomainBig_def example_domainBig_def pick2_def Let_def Exp_nat)
  have inv: "FFTInverse example_collaborators d buf dec coset = buf" for d buf dec coset
    by (simp add: example_collaborators_def)
  have dom: "NewDomain example_collaborators (proof_size (example_proof 7))
       = Some \<lparr>Cardinality = 2, Generator = - 1, FrMultiplicativeGen = 2\<rparr>"
    unfolding size by (rule example_domain)
  note inst = verifier_equation [OF cv cvs example_challenges op dom card,
      where lh = "[1, 2, 3, 4]" and ?lh0.0 = "[5, 6, 7, 8]" and lhn = "[9, 10, 11, 12]"
        and ?lh1h2.0 = "[13, 14, 15, 16]", unfolded Let_def]
  have v: "VerifyLookupVector example_collaborators 3 (example_proof 7)
       = Some (Some ErrPlookupVerification)"
    using inst by (simp add: horner_fold_def)
  obtain res where res: "quotientLagrange 4 [1, 2, 3, 4] [5, 6, 7, 8] [9, 10, 11, 12]
        [13, 14, 15, 16] example_domainBig = Some res"
    "computeQuotientCanonical example_collaborators 4 [1, 2, 3, 4] [5, 6, 7, 8]
             [9, 10, 11, 12] [13, 14, 15, 16] example_domainBig = Some res"
    "length res = 4"
    "\<forall>i<4. res ! nat (reversed 62 i) =
        horner_fold 4 ([13, 14, 15, 16] ! nat (reversed 62 i)) ([9, 10, 11, 12] ! nat (reversed 62 i))
          ([5, 6, 7, 8] ! nat (reversed 62 i)) ([1, 2, 3, 4] ! nat (reversed 62 i))
        / pick2 (evaluateXnMinusOneDomainBig example_domainBig) (i mod 2)"
    using inst by (auto simp: inv)
  have "(1::nat) < 4"
    by simp
  with res(4) have "res ! nat (reversed 62 1) =
        horner_fold 4 ([13, 14, 15, 16] ! nat (reversed 62 1)) ([9, 10, 11, 12] ! nat (reversed 62 1))
          ([5, 6, 7, 8] ! nat (reversed 62 1)) ([1, 2, 3, 4] ! nat (reversed 62 1))
        / pick2 (evaluateXnMinusOneDomainBig example_domainBig) (1 mod 2)"
    by blast
  then have "res ! 2 = (((15 * 4 + 11) * 4 + 7) * 4 + 3) / (- 5)"
    unfolding example_reversed by (simp add: xn horner_fold_def numeral_2_eq_2)
  with cv cvs op dom card v res(1-3) show ?thesis
    by (auto simp: example_challenges)
qed

section \<open>The run of the prover on the small instance\<close>

text \<open>The model is executable: the run is computed from the definitions.\<close>

lemma example_run:
  "ProveLookupVector_locals example_collaborators 3 [1] [1] = Some example_locals"
  unfolding example_locals_def by code_simp

section \<open>C7: the challenge schedule\<close>

lemma deriveRandomness_next:
  "deriveRandomness env \<lparr>pending = c # ls, bound = b\<rparr> c ps =
     (Inr (challenge_hash env b c ps),
      \<lparr>pending = ls, bound = b @ [(c, ps, challenge_hash env b c ps)]\<rparr>)"
  by (simp add: deriveRandomness_def Let_def)

text \<open>
  Claim C7. In a run of the prover that returns a proof, the four challenges are derived in
  the order \<open>beta\<close>, \<open>gamma\<close>, \<open>alpha\<close>, \<open>nu\<close>: \<open>beta\<close> is bound to the commitments to \<open>t\<close>, \<open>f\<close>,
  \<open>h1\<close>, \<open>h2\<close> (in this order), \<open>gamma\<close> to nothing more than the transcript so far, \<open>alpha\<close> to
  the commitment to \<open>Z\<close>, \<open>nu\<close> to the commitment to the quotient \<open>h\<close>. The transcript of the
  prover ends with exactly this schedule, and the verifier, given any proof with the same
  six commitments, derives the same four challenges from the same schedule.
\<close>

theorem challenge_schedule:
  assumes "ProveLookupVector_locals env srs f t = Some l" "var_err l = None"
  shows "\<exists>beta gamma alpha nu sched.
      sched = challengeSchedule env (proof_t (var_proof l)) (proof_f (var_proof l))
                (proof_h1 (var_proof l)) (proof_h2 (var_proof l)) (proof_z (var_proof l))
                (proof_h (var_proof l))
    \<and> sched = [(''beta'', [proof_t (var_proof l), proof_f (var_proof l),
                            proof_h1 (var_proof l), proof_h2 (var_proof l)], beta),
               (''gamma'', [], gamma),
               (''alpha'', [proof_z (var_proof l)], alpha),
               (''nu'', [proof_h (var_proof l)], nu)]
    \<and> var_fs l = \<lparr>pending = [], bound = sched\<rparr>
    \<and> var_beta l = beta \<and> var_gamma l = gamma \<and> var_alpha l = alpha \<and> var_nu l = nu
    \<and> (\<forall>p. proof_t p = proof_t (var_proof l) \<and> proof_f p = proof_f (var_proof l)
           \<and> proof_h1 p = proof_h1 (var_proof l) \<and> proof_h2 p = proof_h2 (var_proof l)
           \<and> proof_z p = proof_z (var_proof l) \<and> proof_h p = proof_h (var_proof l)
          \<longrightarrow> deriveChallenges env p
               = (Inr (beta, gamma, alpha, nu), \<lparr>pending = [], bound = sched\<rparr>))"
proof -
  obtain l1 l2 l3 where
    1: "prepare env srs f t = Some (Running l1)"
    and 2: "accumulatorRound env srs l1 = Some (Running l2)"
    and 3: "quotientRound env srs l2 = Some (Running l3)"
    and 4: "openingRound env srs l3 = Some (Returned l)"
    using ProveLookupVector_success [OF assms] by blast
  define p where "p = var_proof l"
  define beta where "beta = challenge_hash env [] ''beta''
      [proof_t p, proof_f p, proof_h1 p, proof_h2 p]"
  define s1 where "s1 = [(''beta'', [proof_t p, proof_f p, proof_h1 p, proof_h2 p], beta)]"
  define gamma where "gamma = challenge_hash env s1 ''gamma'' []"
  define s2 where "s2 = s1 @ [(''gamma'', [], gamma)]"
  define alpha where "alpha = challenge_hash env s2 ''alpha'' [proof_z p]"
  define s3 where "s3 = s2 @ [(''alpha'', [proof_z p], alpha)]"
  define nu where "nu = challenge_hash env s3 ''nu'' [proof_h p]"
  define sched where "sched = s3 @ [(''nu'', [proof_h p], nu)]"
  have sched: "sched = challengeSchedule env (proof_t p) (proof_f p) (proof_h1 p) (proof_h2 p)
      (proof_z p) (proof_h p)"
    by (simp add: challengeSchedule_def Let_def sched_def s3_def s2_def s1_def nu_def alpha_def
        gamma_def beta_def)
  have sch: "sched =
       [(''beta'', [proof_t p, proof_f p, proof_h1 p, proof_h2 p], beta), (''gamma'', [], gamma),
        (''alpha'', [proof_z p], alpha), (''nu'', [proof_h p], nu)]"
    by (simp add: sched_def s3_def s2_def s1_def)
  have e3: "var_err l3 = None"
    using prepare_Running(1) [OF 1] accumulatorRound_Running(1) [OF 2]
      quotientRound_Running(1) [OF 3] by simp
  from openingRound_Returned [OF 4] e3 assms(2)
  have o: "proof_t p = proof_t (var_proof l3)" "proof_f p = proof_f (var_proof l3)"
    "proof_h1 p = proof_h1 (var_proof l3)" "proof_h2 p = proof_h2 (var_proof l3)"
    "proof_z p = proof_z (var_proof l3)" "proof_h p = proof_h (var_proof l3)"
    "var_beta l = var_beta l3" "var_gamma l = var_gamma l3" "var_alpha l = var_alpha l3"
    "deriveRandomness env (var_fs l3) ''nu'' [proof_h (var_proof l3)] = (Inr (var_nu l), var_fs l)"
    by (auto simp: p_def)
  note q = quotientRound_Running [OF 3]
  note a = accumulatorRound_Running [OF 2]
  note pr = prepare_Running [OF 1]
  obtain fs1 where
    d1: "deriveRandomness env (var_fs l1) ''beta''
            [proof_t (var_proof l1), proof_f (var_proof l1), proof_h1 (var_proof l1),
             proof_h2 (var_proof l1)] = (Inr (var_beta l2), fs1)"
    and d2: "deriveRandomness env fs1 ''gamma'' [] = (Inr (var_gamma l2), var_fs l2)"
    using a(13) by blast
  have dig: "proof_t (var_proof l1) = proof_t p" "proof_f (var_proof l1) = proof_f p"
    "proof_h1 (var_proof l1) = proof_h1 p" "proof_h2 (var_proof l1) = proof_h2 p"
    "proof_z (var_proof l2) = proof_z p" "proof_h (var_proof l3) = proof_h p"
    using o(1-6) q(11-15) a(8-11) by simp_all
  have n1: "deriveRandomness env (var_fs l1) ''beta''
            [proof_t p, proof_f p, proof_h1 p, proof_h2 p]
        = (Inr beta, \<lparr>pending = [''gamma'', ''alpha'', ''nu''], bound = s1\<rparr>)"
    unfolding pr(2) NewTranscript_def deriveRandomness_next beta_def [symmetric]
    by (simp add: s1_def)
  have v1: "var_beta l2 = beta"
    and f1: "fs1 = \<lparr>pending = [''gamma'', ''alpha'', ''nu''], bound = s1\<rparr>"
    using d1 unfolding dig n1 by simp_all
  have v2: "var_gamma l2 = gamma"
    and f2: "var_fs l2 = \<lparr>pending = [''alpha'', ''nu''], bound = s2\<rparr>"
    using d2 unfolding f1 deriveRandomness_next gamma_def [symmetric] s2_def [symmetric]
    by simp_all
  have v3: "var_alpha l3 = alpha"
    and f3: "var_fs l3 = \<lparr>pending = [''nu''], bound = s3\<rparr>"
    using q(17) unfolding f2 dig deriveRandomness_next alpha_def [symmetric] s3_def [symmetric]
    by simp_all
  have v4: "var_nu l = nu" and f4: "var_fs l = \<lparr>pending = [], bound = sched\<rparr>"
    using o(10) unfolding f3 dig deriveRandomness_next nu_def [symmetric] sched_def [symmetric]
    by simp_all
  have vals: "var_beta l = beta" "var_gamma l = gamma" "var_alpha l = alpha"
    using o(7-9) q(8,9) v1 v2 v3 by simp_all
  have ver: "deriveChallenges env p' = (Inr (beta, gamma, alpha, nu), \<lparr>pending = [], bound = sched\<rparr>)"
    if "proof_t p' = proof_t p \<and> proof_f p' = proof_f p \<and> proof_h1 p' = proof_h1 p
        \<and> proof_h2 p' = proof_h2 p \<and> proof_z p' = proof_z p \<and> proof_h p' = proof_h p" for p'
    using that sch by (simp add: deriveChallenges_eq Let_def sched [symmetric])
  have all: "sched = challengeSchedule env (proof_t p) (proof_f p) (proof_h1 p) (proof_h2 p)
                (proof_z p) (proof_h p)
    \<and> sched = [(''beta'', [proof_t p, proof_f p, proof_h1 p, proof_h2 p], beta),
               (''gamma'', [], gamma), (''alpha'', [proof_z p], alpha), (''nu'', [proof_h p], nu)]
    \<and> var_fs l = \<lparr>pending = [], bound = sched\<rparr>
    \<and> var_beta l = beta \<and> var_gamma l = gamma \<and> var_alpha l = alpha \<and> var_nu l = nu
    \<and> (\<forall>p'. proof_t p' = proof_t p \<and> proof_f p' = proof_f p
           \<and> proof_h1 p' = proof_h1 p \<and> proof_h2 p' = proof_h2 p
           \<and> proof_z p' = proof_z p \<and> proof_h p' = proof_h p
          \<longrightarrow> deriveChallenges env p'
               = (Inr (beta, gamma, alpha, nu), \<lparr>pending = [], bound = sched\<rparr>))"
    using sched sch f4 vals v4 ver by (intro conjI allI impI)
  show ?thesis
    using all unfolding p_def by (intro exI)
qed

theorem challenge_schedule_witness:
  "ProveLookupVector_locals example_collaborators 3 [1] [1] = Some example_locals
   \<and> var_err example_locals = None
   \<and> var_fs example_locals =
       \<lparr>pending = [],
        bound = [(''beta'', [4, 4, 4, 4], 18), (''gamma'', [], 3), (''alpha'', [4], 8),
                 (''nu'', [864], 869)]\<rparr>
   \<and> var_beta example_locals = 18 \<and> var_gamma example_locals = 3
   \<and> var_alpha example_locals = 8 \<and> var_nu example_locals = 869
   \<and> deriveChallenges example_collaborators (var_proof example_locals)
       = (Inr (18, 3, 8, 869), var_fs example_locals)"
proof -
  have ok: "var_err example_locals = None"
    by (simp add: example_locals_def)
  obtain beta gamma alpha nu sched where
    s1: "sched = challengeSchedule example_collaborators (proof_t (var_proof example_locals))
          (proof_f (var_proof example_locals)) (proof_h1 (var_proof example_locals))
          (proof_h2 (var_proof example_locals)) (proof_z (var_proof example_locals))
          (proof_h (var_proof example_locals))"
    and s2: "sched = [(''beta'', [proof_t (var_proof example_locals),
                proof_f (var_proof example_locals), proof_h1 (var_proof example_locals),
                proof_h2 (var_proof example_locals)], beta),
               (''gamma'', [], gamma),
               (''alpha'', [proof_z (var_proof example_locals)], alpha),
               (''nu'', [proof_h (var_proof example_locals)], nu)]"
    and fs: "var_fs example_locals = \<lparr>pending = [], bound = sched\<rparr>"
    and vals: "var_beta example_locals = beta" "var_gamma example_locals = gamma"
      "var_alpha example_locals = alpha" "var_nu example_locals = nu"
    and ver: "deriveChallenges example_collaborators (var_proof example_locals)
               = (Inr (beta, gamma, alpha, nu), \<lparr>pending = [], bound = sched\<rparr>)"
    using challenge_schedule [OF example_run ok] by blast
  have digests: "proof_t (var_proof example_locals) = 4" "proof_f (var_proof example_locals) = 4"
    "proof_h1 (var_proof example_locals) = 4" "proof_h2 (var_proof example_locals) = 4"
    "proof_z (var_proof example_locals) = 4" "proof_h (var_proof example_locals) = 864"
    by (simp_all add: example_locals_def)
  have sched: "sched = [(''beta'', [4, 4, 4, 4], 18), (''gamma'', [], 3), (''alpha'', [4], 8),
                 (''nu'', [864], 869)]"
    unfolding s1 digests
    by (simp add: challengeSchedule_def example_collaborators_def Let_def)
  with s2 have "beta = 18" "gamma = 3" "alpha = 8" "nu = 869"
    by simp_all
  with example_run ok fs vals ver sched show ?thesis
    by simp
qed

section \<open>C8: the batched openings\<close>

lemma VerifyLookupVector_accepts_openings:
  assumes "VerifyLookupVector env srs p = Some None"
  shows "checkOpenings env srs p = None"
  using assms by (auto simp: VerifyLookupVector_eq Let_def split: option.splits)

lemma VerifyLookupVector_opening_error:
  assumes "checkOpenings env srs p = Some e"
  shows "VerifyLookupVector env srs p = Some (Some e)"
  using assms by (simp add: VerifyLookupVector_eq Let_def)

text \<open>
  Claim C8. In a run of the prover that returns a proof, the six committed polynomials
  \<open>h1, h2, t, Z, f, h\<close> (in this order, with the six commitments of the proof as digests) are
  opened in one batch at \<open>nu\<close>, and the four polynomials \<open>h1, h2, t, Z\<close> in one batch at
  \<open>nu * g\<close>, where \<open>g\<close> is the generator of the small domain. The verifier checks the batch at
  \<open>nu\<close> against the same six commitments and the batch at \<open>nu * g\<close> against the same four: it
  accepts only if both checks pass, and an error of either check is what it returns.
\<close>

theorem opening_batches:
  assumes "ProveLookupVector_locals env srs f t = Some l" "var_err l = None"
  shows "(let p = var_proof l;
            d = var_domainSmall l;
            at_nu = BatchVerifySinglePoint env
              [proof_h1 p, proof_h2 p, proof_t p, proof_z p, proof_f p, proof_h p]
              (BatchedProof p) srs;
            at_nu_g = BatchVerifySinglePoint env [proof_h1 p, proof_h2 p, proof_t p, proof_z p]
              (BatchedProofShifted p) srs
        in smallDomain env f t = Some d
         \<and> Commit env (var_ch1 l) srs = Inr (proof_h1 p)
         \<and> Commit env (var_ch2 l) srs = Inr (proof_h2 p)
         \<and> Commit env (var_ct l) srs = Inr (proof_t p)
         \<and> Commit env (var_cz l) srs = Inr (proof_z p)
         \<and> Commit env (var_cf l) srs = Inr (proof_f p)
         \<and> Commit env (var_ch l) srs = Inr (proof_h p)
         \<and> BatchOpenSinglePoint env
               [var_ch1 l, var_ch2 l, var_ct l, var_cz l, var_cf l, var_ch l]
               [proof_h1 p, proof_h2 p, proof_t p, proof_z p, proof_f p, proof_h p]
               (var_nu l) d srs = Inr (BatchedProof p)
         \<and> var_nu_shifted l = var_nu l * Generator d
         \<and> BatchOpenSinglePoint env
               [var_ch1 l, var_ch2 l, var_ct l, var_cz l]
               [proof_h1 p, proof_h2 p, proof_t p, proof_z p]
               (var_nu_shifted l) d srs = Inr (BatchedProofShifted p)
         \<and> (VerifyLookupVector env srs p = Some None \<longrightarrow> at_nu = None \<and> at_nu_g = None)
         \<and> (\<forall>e. at_nu = Some e \<longrightarrow> VerifyLookupVector env srs p = Some (Some (ErrKzg e)))
         \<and> (\<forall>e. at_nu = None \<longrightarrow> at_nu_g = Some e \<longrightarrow>
               VerifyLookupVector env srs p = Some (Some (ErrKzg e))))"
proof -
  obtain l1 l2 l3 where
    1: "prepare env srs f t = Some (Running l1)"
    and 2: "accumulatorRound env srs l1 = Some (Running l2)"
    and 3: "quotientRound env srs l2 = Some (Running l3)"
    and 4: "openingRound env srs l3 = Some (Returned l)"
    using ProveLookupVector_success [OF assms] by blast
  define p where "p = var_proof l"
  define d where "d = var_domainSmall l"
  note pr = prepare_Running [OF 1]
  note a = accumulatorRound_Running [OF 2]
  note q = quotientRound_Running [OF 3]
  have e3: "var_err l3 = None"
    using pr(1) a(1) q(1) by simp
  from openingRound_Returned [OF 4] e3 assms(2)
  have o: "var_domainSmall l = var_domainSmall l3"
    "var_ct l = var_ct l3" "var_cf l = var_cf l3" "var_ch1 l = var_ch1 l3"
    "var_ch2 l = var_ch2 l3" "var_cz l = var_cz l3" "var_ch l = var_ch l3"
    "proof_t p = proof_t (var_proof l3)" "proof_f p = proof_f (var_proof l3)"
    "proof_h1 p = proof_h1 (var_proof l3)" "proof_h2 p = proof_h2 (var_proof l3)"
    "proof_z p = proof_z (var_proof l3)" "proof_h p = proof_h (var_proof l3)"
    and nus: "var_nu_shifted l = var_nu l * Generator (var_domainSmall l3)"
    and o1: "BatchOpenSinglePoint env
                [var_ch1 l3, var_ch2 l3, var_ct l3, var_cz l3, var_cf l3, var_ch l3]
                [proof_h1 (var_proof l3), proof_h2 (var_proof l3), proof_t (var_proof l3),
                 proof_z (var_proof l3), proof_f (var_proof l3), proof_h (var_proof l3)]
                (var_nu l) (var_domainSmall l3) srs = Inr (BatchedProof p)"
    and o2: "BatchOpenSinglePoint env
                [var_ch1 l3, var_ch2 l3, var_ct l3, var_cz l3]
                [proof_h1 (var_proof l3), proof_h2 (var_proof l3), proof_t (var_proof l3),
                 proof_z (var_proof l3)]
                (var_nu_shifted l) (var_domainSmall l3) srs = Inr (BatchedProofShifted p)"
    by (auto simp: p_def)
  have dom: "smallDomain env f t = Some d"
    using o(1) q(2) a(2) pr(3) by (simp add: d_def)
  have d3: "var_domainSmall l3 = d"
    using o(1) by (simp add: d_def)
  have c1: "Commit env (var_ch1 l) srs = Inr (proof_h1 p)"
    using pr(7) o(4,10) q(5,13) a(5,10) by simp
  have c2: "Commit env (var_ch2 l) srs = Inr (proof_h2 p)"
    using pr(8) o(5,11) q(6,14) a(6,11) by simp
  have c3: "Commit env (var_ct l) srs = Inr (proof_t p)"
    using pr(5) o(2,8) q(3,11) a(3,8) by simp
  have c4: "Commit env (var_cz l) srs = Inr (proof_z p)"
    using a(12) o(6,12) q(7,15) by simp
  have c5: "Commit env (var_cf l) srs = Inr (proof_f p)"
    using pr(6) o(3,9) q(4,12) a(4,9) by simp
  have c6: "Commit env (var_ch l) srs = Inr (proof_h p)"
    using q(16) o(7,13) by simp
  have b1: "BatchOpenSinglePoint env
               [var_ch1 l, var_ch2 l, var_ct l, var_cz l, var_cf l, var_ch l]
               [proof_h1 p, proof_h2 p, proof_t p, proof_z p, proof_f p, proof_h p]
               (var_nu l) d srs = Inr (BatchedProof p)"
    using o1 unfolding o d3 .
  have ns: "var_nu_shifted l = var_nu l * Generator d"
    using nus unfolding d3 .
  have b2: "BatchOpenSinglePoint env
               [var_ch1 l, var_ch2 l, var_ct l, var_cz l]
               [proof_h1 p, proof_h2 p, proof_t p, proof_z p]
               (var_nu_shifted l) d srs = Inr (BatchedProofShifted p)"
    using o2 unfolding o d3 .
  have v1: "VerifyLookupVector env srs p = Some None \<longrightarrow>
      BatchVerifySinglePoint env
        [proof_h1 p, proof_h2 p, proof_t p, proof_z p, proof_f p, proof_h p] (BatchedProof p) srs
        = None
      \<and> BatchVerifySinglePoint env [proof_h1 p, proof_h2 p, proof_t p, proof_z p]
        (BatchedProofShifted p) srs = None"
    using VerifyLookupVector_accepts_openings [of env srs p] by (simp add: checkOpenings_None)
  have v2: "\<forall>e. BatchVerifySinglePoint env
        [proof_h1 p, proof_h2 p, proof_t p, proof_z p, proof_f p, proof_h p] (BatchedProof p) srs
        = Some e \<longrightarrow> VerifyLookupVector env srs p = Some (Some (ErrKzg e))"
    using checkOpenings_first [of env p srs] VerifyLookupVector_opening_error [of env srs p]
    by blast
  have v3: "\<forall>e. BatchVerifySinglePoint env
        [proof_h1 p, proof_h2 p, proof_t p, proof_z p, proof_f p, proof_h p] (BatchedProof p) srs
        = None \<longrightarrow>
      BatchVerifySinglePoint env [proof_h1 p, proof_h2 p, proof_t p, proof_z p]
        (BatchedProofShifted p) srs = Some e \<longrightarrow>
      VerifyLookupVector env srs p = Some (Some (ErrKzg e))"
    using checkOpenings_second [of env p srs] VerifyLookupVector_opening_error [of env srs p]
    by blast
  show ?thesis
    unfolding Let_def p_def [symmetric] d_def [symmetric]
    by (intro conjI dom c1 c2 c3 c4 c5 c6 b1 ns b2 v1 v2 v3)
qed

theorem opening_batches_witness:
  "ProveLookupVector_locals example_collaborators 3 [1] [1] = Some example_locals
   \<and> var_err example_locals = None
   \<and> BatchOpenSinglePoint example_collaborators
        [[1, 1], [1, 1], [1, 1], [1, 1], [1, 1], [0, 0, 24, 24]] [4, 4, 4, 4, 4, 864] 869
        \<lparr>Cardinality = 2, Generator = - 1, FrMultiplicativeGen = 2\<rparr> 3
       = Inr (BatchedProof (var_proof example_locals))
   \<and> var_nu_shifted example_locals = 869 * (- 1)
   \<and> BatchOpenSinglePoint example_collaborators
        [[1, 1], [1, 1], [1, 1], [1, 1]] [4, 4, 4, 4] (- 869)
        \<lparr>Cardinality = 2, Generator = - 1, FrMultiplicativeGen = 2\<rparr> 3
       = Inr (BatchedProofShifted (var_proof example_locals))
   \<and> Commit example_collaborators [0, 0, 24, 24] 3 = Inr (proof_h (var_proof example_locals))
   \<and> BatchVerifySinglePoint example_collaborators [4, 4, 4, 4, 4, 864]
        (BatchedProof (var_proof example_locals)) 3 = None
   \<and> BatchVerifySinglePoint example_collaborators [4, 4, 4, 4]
        (BatchedProofShifted (var_proof example_locals)) 3 = None"
proof -
  have ok: "var_err example_locals = None"
    by (simp add: example_locals_def)
  have fields: "var_ch1 example_locals = [1, 1]" "var_ch2 example_locals = [1, 1]"
    "var_ct example_locals = [1, 1]" "var_cz example_locals = [1, 1]"
    "var_cf example_locals = [1, 1]" "var_ch example_locals = [0, 0, 24, 24]"
    "var_nu example_locals = 869" "var_nu_shifted example_locals = - 869"
    "var_domainSmall example_locals = \<lparr>Cardinality = 2, Generator = - 1, FrMultiplicativeGen = 2\<rparr>"
    "proof_t (var_proof example_locals) = 4" "proof_f (var_proof example_locals) = 4"
    "proof_h1 (var_proof example_locals) = 4" "proof_h2 (var_proof example_locals) = 4"
    "proof_z (var_proof example_locals) = 4" "proof_h (var_proof example_locals) = 864"
    by (simp_all add: example_locals_def)
  have at_nu: "BatchVerifySinglePoint example_collaborators [4, 4, 4, 4, 4, 864]
        (BatchedProof (var_proof example_locals)) 3 = None"
    by (simp add: example_locals_def example_collaborators_def)
  have at_nu_g: "BatchVerifySinglePoint example_collaborators [4, 4, 4, 4]
        (BatchedProofShifted (var_proof example_locals)) 3 = None"
    by (simp add: example_locals_def example_collaborators_def)
  from opening_batches [OF example_run ok]
  show ?thesis
    unfolding Let_def fields using example_run ok at_nu at_nu_g
    by simp
qed

section \<open>The coset evaluator on a domain of cardinality \<open>2 ^ k\<close>\<close>











section \<open>The prover on non-empty inputs\<close>















section \<open>C2: a vector with a value that is not in the table\<close>




end
